theory Spec2Isabelle
  imports Main "HOL-Library.Word"
begin

section \<open>Strings and slices of the Go standard library\<close>

text \<open>
  A Go string is a sequence of bytes, here a \<open>string\<close> (a list of 8-bit characters).
  Header names and media types are ASCII text. \<open>strings.ToLower\<close> is modelled on
  bytes: it maps the letters A to Z to a to z and leaves every other byte alone, which
  is what Go computes on ASCII input.
\<close>

type_synonym byte = "8 word"

definition isUpper :: "char \<Rightarrow> bool" where
  "isUpper c = (65 \<le> (of_char c :: nat) \<and> (of_char c :: nat) \<le> 90)"

definition isLower :: "char \<Rightarrow> bool" where
  "isLower c = (97 \<le> (of_char c :: nat) \<and> (of_char c :: nat) \<le> 122)"

definition isDigit :: "char \<Rightarrow> bool" where
  "isDigit c = (48 \<le> (of_char c :: nat) \<and> (of_char c :: nat) \<le> 57)"

definition lowerByte :: "char \<Rightarrow> char" where
  "lowerByte c = (if isUpper c then char_of ((of_char c :: nat) + 32) else c)"

definition upperByte :: "char \<Rightarrow> char" where
  "upperByte c = (if isLower c then char_of ((of_char c :: nat) - 32) else c)"

definition ToLower :: "string \<Rightarrow> string" where
  "ToLower s = map lowerByte s"

text \<open>\<open>strings.HasPrefix(s, prefix)\<close>: \<open>len(s) >= len(prefix) && s[:len(prefix)] == prefix\<close>.\<close>

definition HasPrefix :: "string \<Rightarrow> string \<Rightarrow> bool" where
  "HasPrefix s pre = (length pre \<le> length s \<and> take (length pre) s = pre)"

text \<open>\<open>slices.Contains\<close> and \<open>slices.ContainsFunc\<close>: a linear scan that stops at the first hit.\<close>

fun Contains :: "'a list \<Rightarrow> 'a \<Rightarrow> bool" where
  "Contains [] v = False"
| "Contains (x # xs) v = (if x = v then True else Contains xs v)"

fun ContainsFunc :: "'a list \<Rightarrow> ('a \<Rightarrow> bool) \<Rightarrow> bool" where
  "ContainsFunc [] f = False"
| "ContainsFunc (x # xs) f = (if f x then True else ContainsFunc xs f)"

section \<open>Header maps\<close>

text \<open>
  \<open>http.Header\<close> is \<open>map[string][]string\<close>. \<open>Add\<close> and \<open>Get\<close> go through
  \<open>textproto.CanonicalMIMEHeaderKey\<close>: a key made of header-token bytes only gets an
  upper-case first letter and an upper-case letter after each hyphen, every other
  letter in lower case; a key with any other byte is used as it is.
\<close>

type_synonym Header = "string \<rightharpoonup> string list"

definition validHeaderFieldByte :: "char \<Rightarrow> bool" where
  "validHeaderFieldByte c =
     (isUpper c \<or> isLower c \<or> isDigit c \<or> c \<in> set ''!#$%&*+-.^_`|~'' \<or> of_char c = (39 :: nat))"

fun canonicalLoop :: "bool \<Rightarrow> string \<Rightarrow> string" where
  "canonicalLoop upper [] = []"
| "canonicalLoop upper (c # cs) =
     (let c' = (if upper \<and> isLower c then upperByte c
                else if \<not> upper \<and> isUpper c then lowerByte c
                else c)
      in c' # canonicalLoop (c' = CHR ''-'') cs)"

definition CanonicalMIMEHeaderKey :: "string \<Rightarrow> string" where
  "CanonicalMIMEHeaderKey s =
     (if list_all validHeaderFieldByte s then canonicalLoop True s else s)"

definition Header_Add :: "Header \<Rightarrow> string \<Rightarrow> string \<Rightarrow> Header" where
  "Header_Add h key v =
     (let k = CanonicalMIMEHeaderKey key
      in h(k \<mapsto> (case h k of None \<Rightarrow> [] | Some vs \<Rightarrow> vs) @ [v]))"

definition Header_Get :: "Header \<Rightarrow> string \<Rightarrow> string" where
  "Header_Get h key =
     (case h (CanonicalMIMEHeaderKey key) of
        None \<Rightarrow> ''''
      | Some [] \<Rightarrow> ''''
      | Some (v # _) \<Rightarrow> v)"

section \<open>Errors\<close>

text \<open>
  Go errors are values. \<open>ErrorString\<close> stands for an error made by the standard
  library, by the edit hook or by the transport function (its message is all this
  program can see of it). \<open>UnexpectedStatusCode n\<close> is
  \<open>errors.Errorf("unexpected status code: %d", n)\<close>, \<open>UnexpectedContentType s\<close> is
  \<open>errors.Errorf("unexpected content type: %s", s)\<close>, and \<open>WithStack e\<close> is
  \<open>errors.WithStack(e)\<close> for a non-nil \<open>e\<close>.
\<close>

datatype error =
    ErrorString string
  | UnexpectedStatusCode int
  | UnexpectedContentType string
  | WithStack error

section \<open>Package net/url\<close>

text \<open>
  The model follows the algorithm of \<open>url.Parse\<close>, \<open>URL.ResolveReference\<close> (RFC 3986,
  section 5.2) and \<open>URL.String\<close>. Every component is kept as it is written:
  percent-escapes, user information and IP literals are not interpreted and the host
  name is not validated. On addresses made of letters, digits, \<open>-._~\<close> and the
  delimiters \<open>:/?#\<close> this is what the library computes.
\<close>

record URL =
  u_Scheme :: string
  u_Opaque :: string
  u_Host :: string
  u_Path :: string
  u_OmitHost :: bool
  u_ForceQuery :: bool
  u_RawQuery :: string
  u_Fragment :: string

definition emptyURL :: URL where
  "emptyURL = \<lparr>u_Scheme = '''', u_Opaque = '''', u_Host = '''', u_Path = '''',
     u_OmitHost = False, u_ForceQuery = False, u_RawQuery = '''', u_Fragment = ''''\<rparr>"

text \<open>\<open>strings.Cut(s, sep)\<close> for a one-byte separator: before, after, found.\<close>

fun Cut :: "string \<Rightarrow> char \<Rightarrow> string \<times> string \<times> bool" where
  "Cut [] sep = ([], [], False)"
| "Cut (c # cs) sep =
     (if c = sep then ([], cs, True)
      else (case Cut cs sep of (before, after, found) \<Rightarrow> (c # before, after, found)))"

text \<open>\<open>strings.LastIndex(s, sep)\<close> for a one-byte separator; \<open>None\<close> is Go's -1.\<close>

fun LastIndex :: "string \<Rightarrow> char \<Rightarrow> nat option" where
  "LastIndex [] sep = None"
| "LastIndex (c # cs) sep =
     (case LastIndex cs sep of
        Some i \<Rightarrow> Some (Suc i)
      | None \<Rightarrow> (if c = sep then Some 0 else None))"

definition stringContainsCTLByte :: "string \<Rightarrow> bool" where
  "stringContainsCTLByte s = list_ex (\<lambda>c. (of_char c :: nat) < 32 \<or> (of_char c :: nat) = 127) s"

text \<open>
  \<open>getScheme\<close>: the loop over the bytes of \<open>rawURL\<close>; \<open>seen\<close> holds \<open>rawURL[:i]\<close> and
  the last argument \<open>rawURL[i:]\<close>.
\<close>

fun getSchemeLoop :: "string \<Rightarrow> string \<Rightarrow> string \<Rightarrow> error + (string \<times> string)" where
  "getSchemeLoop rawURL seen [] = Inr ('''', rawURL)"
| "getSchemeLoop rawURL seen (c # cs) =
     (if isLower c \<or> isUpper c then getSchemeLoop rawURL (seen @ [c]) cs
      else if isDigit c \<or> c = CHR ''+'' \<or> c = CHR ''-'' \<or> c = CHR ''.'' then
        (if seen = [] then Inr ('''', rawURL) else getSchemeLoop rawURL (seen @ [c]) cs)
      else if c = CHR '':'' then
        (if seen = [] then Inl (ErrorString ''missing protocol scheme'') else Inr (seen, cs))
      else Inr ('''', rawURL))"

definition getScheme :: "string \<Rightarrow> error + (string \<times> string)" where
  "getScheme rawURL = getSchemeLoop rawURL [] rawURL"

definition setPath :: "URL \<Rightarrow> string \<Rightarrow> error + URL" where
  "setPath url p = Inr (url\<lparr>u_Path := p\<rparr>)"

definition parseAuthority :: "string \<Rightarrow> error + string" where
  "parseAuthority authority = Inr authority"

text \<open>\<open>parse(rawURL, viaRequest)\<close> with \<open>viaRequest = false\<close>, as \<open>url.Parse\<close> calls it.\<close>

definition parse :: "string \<Rightarrow> error + URL" where
  "parse rawURL =
     (if stringContainsCTLByte rawURL then
        Inl (ErrorString ''net/url: invalid control character in URL'')
      else if rawURL = ''*'' then Inr (emptyURL\<lparr>u_Path := ''*''\<rparr>)
      else
        (case getScheme rawURL of
           Inl err \<Rightarrow> Inl err
         | Inr (scheme, rest0) \<Rightarrow>
             let url0 = emptyURL\<lparr>u_Scheme := ToLower scheme\<rparr>;
                 (url, rest) =
                   (if rest0 \<noteq> [] \<and> last rest0 = CHR ''?'' \<and> count_list rest0 (CHR ''?'') = 1
                    then (url0\<lparr>u_ForceQuery := True\<rparr>, butlast rest0)
                    else (case Cut rest0 (CHR ''?'') of
                            (r, q, _) \<Rightarrow> (url0\<lparr>u_RawQuery := q\<rparr>, r)))
             in if \<not> HasPrefix rest ''/'' \<and> u_Scheme url \<noteq> '''' then
                  Inr (url\<lparr>u_Opaque := rest\<rparr>)
                else if \<not> HasPrefix rest ''/'' \<and> CHR '':'' \<in> set (fst (Cut rest (CHR ''/''))) then
                  Inl (ErrorString ''first path segment in URL cannot contain colon'')
                else if (u_Scheme url \<noteq> '''' \<or> \<not> HasPrefix rest ''///'') \<and> HasPrefix rest ''//'' then
                  (let authority0 = drop 2 rest;
                       (authority, rest') =
                         (case Cut authority0 (CHR ''/'') of
                            (a, r, found) \<Rightarrow> if found then (a, CHR ''/'' # r) else (authority0, ''''))
                   in case parseAuthority authority of
                        Inl err \<Rightarrow> Inl err
                      | Inr host \<Rightarrow> setPath (url\<lparr>u_Host := host\<rparr>) rest')
                else if u_Scheme url \<noteq> '''' \<and> HasPrefix rest ''/'' then
                  setPath (url\<lparr>u_OmitHost := True\<rparr>) rest
                else setPath url rest))"

text \<open>\<open>url.Parse\<close>: the fragment is cut off first.\<close>

definition url_Parse :: "string \<Rightarrow> error + URL" where
  "url_Parse rawURL =
     (case Cut rawURL (CHR ''#'') of
        (u, frag, _) \<Rightarrow>
          (case parse u of
             Inl err \<Rightarrow> Inl err
           | Inr url \<Rightarrow> if frag = '''' then Inr url else Inr (url\<lparr>u_Fragment := frag\<rparr>)))"

definition EscapedPath :: "URL \<Rightarrow> string" where
  "EscapedPath u = u_Path u"

text \<open>
  \<open>resolvePath(base, ref)\<close>. The loop cuts \<open>remaining\<close> at each slash; \<open>dst\<close> is
  the builder and \<open>first\<close> its flag. The loop returns the builder and the last element.
\<close>

function resolveLoop :: "string \<Rightarrow> string \<Rightarrow> bool \<Rightarrow> string \<times> string" where
  "resolveLoop remaining dst first =
     (case Cut remaining (CHR ''/'') of
        (elem, remaining', found) \<Rightarrow>
          let (dst', first') =
                (if elem = ''.'' then (dst, False)
                 else if elem = ''..'' then
                   (let str = drop 1 dst
                    in case LastIndex str (CHR ''/'') of
                         None \<Rightarrow> (''/'', True)
                       | Some index \<Rightarrow> (''/'' @ take index str, first))
                 else ((if first then dst else dst @ ''/'') @ elem, False))
          in if found then resolveLoop remaining' dst' first' else (dst', elem))"
  by pat_completeness auto
termination
proof -
  have shorter: "length after < length s" if "(before, after, True) = Cut s sep"
    for s :: string and sep before after
    using that by (induction s arbitrary: before) (auto split: if_splits prod.splits)
  show ?thesis
    by (relation "measure (\<lambda>(remaining, dst, first). length remaining)")
       (auto dest: shorter)
qed

definition resolvePath :: "string \<Rightarrow> string \<Rightarrow> string" where
  "resolvePath base ref =
     (let full =
            (if ref = '''' then base
             else if hd ref \<noteq> CHR ''/'' then
               (case LastIndex base (CHR ''/'') of
                  None \<Rightarrow> ref
                | Some i \<Rightarrow> take (Suc i) base @ ref)
             else ref)
      in if full = '''' then ''''
         else
           (case resolveLoop full ''/'' True of
              (dst, elem) \<Rightarrow>
                let r = (if elem = ''.'' \<or> elem = ''..'' then dst @ ''/'' else dst)
                in if length r > 1 \<and> r ! 1 = CHR ''/'' then drop 1 r else r))"

text \<open>
  \<open>URL.ResolveReference\<close>. \<open>setPath\<close> cannot fail on a path that is already escaped,
  and the library ignores its result; the model does the same.
\<close>

definition ResolveReference :: "URL \<Rightarrow> URL \<Rightarrow> URL" where
  "ResolveReference u ref =
     (let url = (if u_Scheme ref = '''' then ref\<lparr>u_Scheme := u_Scheme u\<rparr> else ref)
      in if u_Scheme ref \<noteq> '''' \<or> u_Host ref \<noteq> '''' then
           url\<lparr>u_Path := resolvePath (EscapedPath ref) ''''\<rparr>
         else if u_Opaque ref \<noteq> '''' then
           url\<lparr>u_Host := '''', u_Path := ''''\<rparr>
         else
           (let url1 =
                  (if u_Path ref = '''' \<and> \<not> u_ForceQuery ref \<and> u_RawQuery ref = '''' then
                     (let url0 = url\<lparr>u_RawQuery := u_RawQuery u\<rparr>
                      in if u_Fragment ref = '''' then url0\<lparr>u_Fragment := u_Fragment u\<rparr> else url0)
                   else url)
            in if u_Path ref = '''' \<and> u_Opaque u \<noteq> '''' then
                 url1\<lparr>u_Opaque := u_Opaque u, u_Host := '''', u_Path := ''''\<rparr>
               else
                 url1\<lparr>u_Host := u_Host u,
                       u_Path := resolvePath (EscapedPath u) (EscapedPath ref)\<rparr>))"

text \<open>\<open>URL.Parse(ref)\<close>: parse the reference, then resolve it against the receiver.\<close>

definition URL_Parse :: "URL \<Rightarrow> string \<Rightarrow> error + URL" where
  "URL_Parse u ref =
     (case url_Parse ref of
        Inl err \<Rightarrow> Inl err
      | Inr refURL \<Rightarrow> Inr (ResolveReference u refURL))"

text \<open>\<open>URL.String\<close>, written in the order the library fills its buffer.\<close>

definition URL_String :: "URL \<Rightarrow> string" where
  "URL_String u =
     (let buf0 = (if u_Scheme u \<noteq> '''' then u_Scheme u @ '':'' else '''');
          buf1 =
            (if u_Opaque u \<noteq> '''' then buf0 @ u_Opaque u
             else
               (let buf2 =
                      (if u_Scheme u \<noteq> '''' \<or> u_Host u \<noteq> '''' then
                         (if u_OmitHost u \<and> u_Host u = '''' then buf0
                          else buf0 @ (if u_Host u \<noteq> '''' \<or> u_Path u \<noteq> '''' then ''//'' else '''')
                                    @ u_Host u)
                       else buf0);
                    path = EscapedPath u;
                    buf3 = (if path \<noteq> '''' \<and> hd path \<noteq> CHR ''/'' \<and> u_Host u \<noteq> ''''
                            then buf2 @ ''/'' else buf2);
                    buf4 = (if buf3 = '''' \<and> CHR '':'' \<in> set (fst (Cut path (CHR ''/'')))
                            then buf3 @ ''./'' else buf3)
                in buf4 @ path));
          buf5 = (if u_ForceQuery u \<or> u_RawQuery u \<noteq> '''' then buf1 @ ''?'' @ u_RawQuery u else buf1)
      in if u_Fragment u \<noteq> '''' then buf5 @ ''#'' @ u_Fragment u else buf5)"

section \<open>Package net/http: building a request\<close>

text \<open>
  The body of an \<open>http.Request\<close>: \<open>nil\<close>, \<open>http.NoBody\<close>, or a reader over the bytes
  it was given.
\<close>

datatype body = NilBody | NoBody | BytesReader "byte list"

record http_Request =
  req_Method :: string
  req_URL :: URL
  req_Header :: Header
  req_Body :: body
  req_ContentLength :: nat
  req_Host :: string

definition validMethod :: "string \<Rightarrow> bool" where
  "validMethod method = (method \<noteq> '''' \<and> list_all validHeaderFieldByte method)"

definition removeEmptyPort :: "string \<Rightarrow> string" where
  "removeEmptyPort host =
     (let hasPort =
            (case LastIndex host (CHR '':'') of
               None \<Rightarrow> False
             | Some i \<Rightarrow> (case LastIndex host (CHR '']'') of None \<Rightarrow> True | Some j \<Rightarrow> j < i))
      in if hasPort \<and> host \<noteq> '''' \<and> last host = CHR '':'' then butlast host else host)"

text \<open>
  \<open>http.NewRequestWithContext(context.Background(), method, url, body)\<close>, where \<open>body\<close>
  is \<open>nil\<close> (\<open>None\<close>) or a \<open>*bytes.Reader\<close> over a byte slice. An empty method means GET;
  a reader with nothing to read becomes \<open>http.NoBody\<close>.
\<close>

definition NewRequestWithContext :: "string \<Rightarrow> string \<Rightarrow> byte list option \<Rightarrow> error + http_Request" where
  "NewRequestWithContext method0 url requestBody =
     (let method = (if method0 = '''' then ''GET'' else method0)
      in if \<not> validMethod method then Inl (ErrorString (''net/http: invalid method '' @ method))
         else
           (case url_Parse url of
              Inl err \<Rightarrow> Inl err
            | Inr u0 \<Rightarrow>
                let u = u0\<lparr>u_Host := removeEmptyPort (u_Host u0)\<rparr>
                in Inr \<lparr>req_Method = method,
                        req_URL = u,
                        req_Header = Map.empty,
                        req_Body =
                          (case requestBody of
                             None \<Rightarrow> NilBody
                           | Some bs \<Rightarrow> if length bs = 0 then NoBody else BytesReader bs),
                        req_ContentLength = (case requestBody of None \<Rightarrow> 0 | Some bs \<Rightarrow> length bs),
                        req_Host = u_Host u\<rparr>))"

section \<open>Package net/http: responses\<close>

text \<open>
  The body of an \<open>http.Response\<close> is a stream. Reading it to the end yields the bytes
  in \<open>st_data\<close> and then either end of file (\<open>st_err = None\<close>) or a read error;
  \<open>io.ReadAll\<close> returns both.
\<close>

record stream =
  st_data :: "byte list"
  st_err :: "error option"

definition ReadAll :: "stream \<Rightarrow> byte list \<times> error option" where
  "ReadAll s = (st_data s, st_err s)"

record http_Response =
  hres_StatusCode :: int
  hres_Header :: Header
  hres_Body :: stream

section \<open>The client\<close>

text \<open>
  \<open>Request\<close>, \<open>Response\<close> and \<open>ClientImpl\<close> are the structs of \<open>client.go\<close>. A nil slice
  and an empty slice of expected values are both the empty list (the code only takes
  their length); a nil \<open>Body\<close> is \<open>None\<close>. \<open>Headers\<close> is a Go map, which has no order
  of its own: a \<open>range\<close> loop over it visits the keys in an order the runtime picks, so
  every function that ranges over the map takes that order as its argument
  \<open>keyOrder\<close>; \<open>rangeOrder\<close> says that a list is one of the orders the runtime may pick.
\<close>

record Request =
  Method :: string
  Path :: string
  Headers :: "string \<rightharpoonup> string list"
  Body :: "byte list option"
  ExpectedStatusCodes :: "int list"
  ExpectedContentTypes :: "string list"

record Response =
  resp_StatusCode :: int
  resp_Headers :: Header
  resp_Body :: "byte list"

text \<open>
  The edit hook mutates the request it is given and returns an error or nil. The
  transport function returns an error, or a response whose body is open (the contract
  of \<open>http.Client.Do\<close>).
\<close>

type_synonym EditRequestFunc = "http_Request \<Rightarrow> http_Request \<times> error option"

type_synonym DoFunc = "http_Request \<Rightarrow> error + http_Response"

record ClientImpl =
  do :: DoFunc
  baseURL :: string

definition NewClient :: "DoFunc \<Rightarrow> string \<Rightarrow> ClientImpl" where
  "NewClient d b = \<lparr>do = d, baseURL = b\<rparr>"

definition rangeOrder :: "('k \<rightharpoonup> 'v) \<Rightarrow> 'k list \<Rightarrow> bool" where
  "rangeOrder m keyOrder = (distinct keyOrder \<and> set keyOrder = dom m)"

definition MethodGet :: string where
  "MethodGet = ''GET''"

text \<open>The two loops of \<open>buildHTTPRequest\<close>: over the values of a key, and over the keys.\<close>

fun addValues :: "Header \<Rightarrow> string \<Rightarrow> string list \<Rightarrow> Header" where
  "addValues h key [] = h"
| "addValues h key (v # values) = addValues (Header_Add h key v) key values"

fun addHeaders :: "Header \<Rightarrow> (string \<rightharpoonup> string list) \<Rightarrow> string list \<Rightarrow> Header" where
  "addHeaders h m [] = h"
| "addHeaders h m (key # keys) =
     addHeaders (addValues h key (case m key of None \<Rightarrow> [] | Some values \<Rightarrow> values)) m keys"

definition buildHTTPRequest :: "ClientImpl \<Rightarrow> string list \<Rightarrow> Request \<Rightarrow> error + http_Request" where
  "buildHTTPRequest c keyOrder request =
     (let requestBody = (if Method request \<noteq> MethodGet \<and> Body request \<noteq> None
                         then Body request else None)
      in case url_Parse (baseURL c) of
           Inl err \<Rightarrow> Inl (WithStack err)
         | Inr base \<Rightarrow>
             (case URL_Parse base (Path request) of
                Inl err \<Rightarrow> Inl (WithStack err)
              | Inr requestURL \<Rightarrow>
                  (case NewRequestWithContext (Method request) (URL_String requestURL) requestBody of
                     Inl err \<Rightarrow> Inl (WithStack err)
                   | Inr httpRequest \<Rightarrow>
                       Inr (httpRequest\<lparr>req_Header :=
                              addHeaders (req_Header httpRequest) (Headers request) keyOrder\<rparr>))))"

definition validateResponse :: "http_Response \<Rightarrow> Request \<Rightarrow> error option" where
  "validateResponse httpResponse request =
     (if length (ExpectedStatusCodes request) > 0
         \<and> \<not> Contains (ExpectedStatusCodes request) (hres_StatusCode httpResponse)
      then Some (UnexpectedStatusCode (hres_StatusCode httpResponse))
      else
        (let contentType = Header_Get (hres_Header httpResponse) ''Content-Type''
         in if length (ExpectedContentTypes request) > 0
               \<and> \<not> ContainsFunc (ExpectedContentTypes request)
                     (\<lambda>prefix. HasPrefix (ToLower contentType) (ToLower prefix))
            then Some (UnexpectedContentType contentType)
            else None))"

text \<open>
  What a call does to the outside world, in the order it does it: the hook and the
  transport function are called with a request, the response stream is read, the
  response stream is closed.
\<close>

datatype event =
    EditCalled http_Request
  | DoCalled http_Request
  | BodyRead
  | BodyClosed

text \<open>
  \<open>readResponse\<close> returns Go's pair of results (\<open>None\<close> is nil) and the events of the call.
\<close>

definition readResponse :: "http_Response \<Rightarrow> Response option \<times> error option \<times> event list" where
  "readResponse httpResponse =
     (case ReadAll (hres_Body httpResponse) of
        (responseBody, Some err) \<Rightarrow> (None, Some (WithStack err), [BodyRead])
      | (responseBody, None) \<Rightarrow>
          (Some \<lparr>resp_StatusCode = hres_StatusCode httpResponse,
                  resp_Headers = hres_Header httpResponse,
                  resp_Body = responseBody\<rparr>, None, [BodyRead]))"

record outcome =
  out_response :: "Response option"
  out_error :: "error option"
  out_events :: "event list"

text \<open>
  \<open>Do\<close>. The deferred function runs when \<open>Do\<close> returns, whatever the path taken after
  the \<open>defer\<close> statement: its event comes last on each of them.
\<close>

definition Do :: "ClientImpl \<Rightarrow> string list \<Rightarrow> Request \<Rightarrow> EditRequestFunc option \<Rightarrow> outcome" where
  "Do c keyOrder request edit =
     (case buildHTTPRequest c keyOrder request of
        Inl err \<Rightarrow> \<lparr>out_response = None, out_error = Some err, out_events = []\<rparr>
      | Inr httpRequest0 \<Rightarrow>
          let (httpRequest, editErr, ev1) =
                (case edit of
                   None \<Rightarrow> (httpRequest0, None, [])
                 | Some f \<Rightarrow>
                     (case f httpRequest0 of
                        (edited, e) \<Rightarrow> (edited, e, [EditCalled httpRequest0])))
          in (case editErr of
               Some err \<Rightarrow>
                 \<lparr>out_response = None, out_error = Some (WithStack err), out_events = ev1\<rparr>
             | None \<Rightarrow>
                 (case do c httpRequest of
                    Inl err \<Rightarrow>
                      \<lparr>out_response = None, out_error = Some (WithStack err),
                       out_events = ev1 @ [DoCalled httpRequest]\<rparr>
                  | Inr httpResponse \<Rightarrow>
                      let (response, err, ev2) =
                            (case validateResponse httpResponse request of
                               Some err \<Rightarrow> (None, Some err, [])
                             | None \<Rightarrow> readResponse httpResponse)
                      in \<lparr>out_response = response, out_error = err,
                          out_events = ev1 @ [DoCalled httpRequest] @ ev2 @ [BodyClosed]\<rparr>)))"

section \<open>The superseded variant\<close>

text \<open>
  The earlier \<open>Do\<close> kept in \<open>client.go\<close> checks the response with two helpers of its
  own; \<open>containsStringPrefix\<close> compares the bytes as they are.
\<close>

fun containsInt :: "int list \<Rightarrow> int \<Rightarrow> bool" where
  "containsInt [] item = False"
| "containsInt (v # list) item = (if v = item then True else containsInt list item)"

fun containsStringPrefix :: "string list \<Rightarrow> string \<Rightarrow> bool" where
  "containsStringPrefix [] s = False"
| "containsStringPrefix (prefix # list) s =
     (if HasPrefix s prefix then True else containsStringPrefix list s)"

section \<open>Stages of a call\<close>

text \<open>
  Three observers used to state properties of \<open>Do\<close>: \<open>sent\<close> is the request handed
  to the transport function, when the call gets that far (the request was built and the
  hook, if any, returned nil); \<open>received\<close> is the response the transport function
  returned for it, when it returned one; \<open>editEvents\<close> is the call of the hook, when
  there is a hook and a request to give it.
\<close>

definition sent :: "ClientImpl \<Rightarrow> string list \<Rightarrow> Request \<Rightarrow> EditRequestFunc option \<Rightarrow> http_Request option" where
  "sent c keyOrder request edit =
     (case buildHTTPRequest c keyOrder request of
        Inl err \<Rightarrow> None
      | Inr httpRequest \<Rightarrow>
          (case edit of
             None \<Rightarrow> Some httpRequest
           | Some f \<Rightarrow>
               (case f httpRequest of
                  (edited, None) \<Rightarrow> Some edited
                | (edited, Some err) \<Rightarrow> None)))"

definition received :: "ClientImpl \<Rightarrow> string list \<Rightarrow> Request \<Rightarrow> EditRequestFunc option \<Rightarrow> http_Response option" where
  "received c keyOrder request edit =
     (case sent c keyOrder request edit of
        None \<Rightarrow> None
      | Some httpRequest \<Rightarrow>
          (case do c httpRequest of
             Inl err \<Rightarrow> None
           | Inr httpResponse \<Rightarrow> Some httpResponse))"

definition editEvents :: "ClientImpl \<Rightarrow> string list \<Rightarrow> Request \<Rightarrow> EditRequestFunc option \<Rightarrow> event list" where
  "editEvents c keyOrder request edit =
     (case buildHTTPRequest c keyOrder request of
        Inl err \<Rightarrow> []
      | Inr httpRequest \<Rightarrow>
          (case edit of
             None \<Rightarrow> []
           | Some f \<Rightarrow> [EditCalled httpRequest]))"

section \<open>Example calls\<close>

text \<open>
  The calls of the test suite (\<open>TestClientImpl_Do\<close>): the client talks to
  \<open>http://example.com\<close> through a stub transport function.
\<close>

definition bytesOf :: "string \<Rightarrow> byte list" where
  "bytesOf s = map (\<lambda>c. of_nat (of_char c)) s"

definition stubResponse :: "int \<Rightarrow> Header \<Rightarrow> string \<Rightarrow> http_Response" where
  "stubResponse code header text =
     \<lparr>hres_StatusCode = code, hres_Header = header,
      hres_Body = \<lparr>st_data = bytesOf text, st_err = None\<rparr>\<rparr>"

definition okTransport :: DoFunc where
  "okTransport httpRequest = Inr (stubResponse 200 Map.empty ''test response'')"

definition serverErrorTransport :: DoFunc where
  "serverErrorTransport httpRequest = Inr (stubResponse 500 Map.empty ''internal server error'')"

definition textPlainTransport :: DoFunc where
  "textPlainTransport httpRequest =
     Inr (stubResponse 200 [''Content-Type'' \<mapsto> [''text/plain'']] ''unexpected content'')"

definition jsonTransport :: DoFunc where
  "jsonTransport httpRequest =
     Inr (stubResponse 200 [''Content-Type'' \<mapsto> [''Application/JSON; charset=utf-8'']] ''{}'')"

definition serverErrorTextTransport :: DoFunc where
  "serverErrorTextTransport httpRequest =
     Inr (stubResponse 500 [''Content-Type'' \<mapsto> [''text/plain'']] ''internal server error'')"

definition brokenStreamTransport :: DoFunc where
  "brokenStreamTransport httpRequest =
     Inr \<lparr>hres_StatusCode = 200, hres_Header = Map.empty,
          hres_Body = \<lparr>st_data = bytesOf ''te'', st_err = Some (ErrorString ''unexpected EOF'')\<rparr>\<rparr>"

definition exampleClient :: "DoFunc \<Rightarrow> ClientImpl" where
  "exampleClient transport = NewClient transport ''http://example.com''"

definition getRequest :: Request where
  "getRequest =
     \<lparr>Method = ''GET'', Path = ''/test'',
      Headers = [''Accept'' \<mapsto> [''application/json'']],
      Body = None, ExpectedStatusCodes = [], ExpectedContentTypes = []\<rparr>"

definition postRequest :: Request where
  "postRequest =
     \<lparr>Method = ''POST'', Path = ''/test'',
      Headers = [''Content-Type'' \<mapsto> [''application/json'']],
      Body = Some (bytesOf ''{}''), ExpectedStatusCodes = [], ExpectedContentTypes = []\<rparr>"

definition setCustomHeader :: EditRequestFunc where
  "setCustomHeader req =
     (req\<lparr>req_Header := (req_Header req)(''X-Custom-Header'' \<mapsto> [''custom-value''])\<rparr>, None)"

definition failingEdit :: EditRequestFunc where
  "failingEdit req = (req, Some (ErrorString ''edit failed''))"

definition getWithBodyRequest :: Request where
  "getWithBodyRequest = getRequest\<lparr>Body := Some (bytesOf ''{}'')\<rparr>"

definition statusRequest :: Request where
  "statusRequest = getRequest\<lparr>ExpectedStatusCodes := [200]\<rparr>"

definition contentTypeRequest :: Request where
  "contentTypeRequest =
     \<lparr>Method = ''GET'', Path = ''/test'', Headers = Map.empty,
      Body = None, ExpectedStatusCodes = [], ExpectedContentTypes = [''application/json'']\<rparr>"

definition strictRequest :: Request where
  "strictRequest =
     \<lparr>Method = ''GET'', Path = ''/test'', Headers = Map.empty,
      Body = None, ExpectedStatusCodes = [200], ExpectedContentTypes = [''application/json'']\<rparr>"

definition mixedCaseRequest :: Request where
  "mixedCaseRequest =
     \<lparr>Method = ''POST'', Path = ''/test'',
      Headers = [''content-type'' \<mapsto> [''application/json''],
                 ''Content-Type'' \<mapsto> [''text/plain'']],
      Body = None, ExpectedStatusCodes = [], ExpectedContentTypes = []\<rparr>"

section \<open>Notions of the specification\<close>



text \<open>
  The values a built request holds under the canonical header name \<open>name\<close>: the values
  of every key of the map that has this canonical form, key after key in the order of
  the iteration.
\<close>

definition mergedValues :: "(string \<rightharpoonup> string list) \<Rightarrow> string list \<Rightarrow> string \<Rightarrow> string list" where
  "mergedValues m keyOrder name =
     concat (map (\<lambda>key. case m key of None \<Rightarrow> [] | Some values \<Rightarrow> values)
                 (filter (\<lambda>key. CanonicalMIMEHeaderKey key = name) keyOrder))"

text \<open>The header entry of the built request, when the request can be built.\<close>

definition builtHeader :: "ClientImpl \<Rightarrow> string list \<Rightarrow> Request \<Rightarrow> string \<Rightarrow> string list option" where
  "builtHeader c keyOrder request name =
     (case buildHTTPRequest c keyOrder request of
        Inl err \<Rightarrow> None
      | Inr httpRequest \<Rightarrow> req_Header httpRequest name)"

text \<open>The address of the built request, when the request can be built.\<close>

definition builtAddress :: "ClientImpl \<Rightarrow> string list \<Rightarrow> Request \<Rightarrow> string option" where
  "builtAddress c keyOrder request =
     (case buildHTTPRequest c keyOrder request of
        Inl err \<Rightarrow> None
      | Inr httpRequest \<Rightarrow> Some (URL_String (req_URL httpRequest)))"

text \<open>The addresses of the test suite, parsed.\<close>

definition exampleBase :: URL where
  "exampleBase = emptyURL\<lparr>u_Scheme := ''http'', u_Host := ''example.com''\<rparr>"

definition exampleTarget :: URL where
  "exampleTarget = emptyURL\<lparr>u_Scheme := ''http'', u_Host := ''example.com'', u_Path := ''/test''\<rparr>"

section \<open>Reference resolution: the examples of the standard\<close>

text \<open>
  \<open>requestAddress base ref\<close> is the address \<open>buildHTTPRequest\<close> computes from its two
  strings, by the calls it makes: parse the base, parse the reference and resolve it
  against the base, write the result out, and parse and write it again as
  \<open>NewRequestWithContext\<close> does. \<open>rfcExamples\<close> are the reference resolution examples of
  RFC 3986, sections 5.4.1 (normal) and 5.4.2 (abnormal), all against the base address
  \<open>rfcBase\<close>: each reference with the address the standard gives for it.
\<close>

definition requestAddress :: "string \<Rightarrow> string \<Rightarrow> string option" where
  "requestAddress base ref =
     (case url_Parse base of
        Inl err \<Rightarrow> None
      | Inr b \<Rightarrow>
          (case URL_Parse b ref of
             Inl err \<Rightarrow> None
           | Inr u \<Rightarrow>
               (case url_Parse (URL_String u) of
                  Inl err \<Rightarrow> None
                | Inr u' \<Rightarrow> Some (URL_String (u'\<lparr>u_Host := removeEmptyPort (u_Host u')\<rparr>)))))"

definition rfcBase :: string where
  "rfcBase = ''http://a/b/c/d;p?q''"

definition rfcExamples :: "(string \<times> string) list" where
  "rfcExamples =
     [(''g:h'', ''g:h''),
      (''g'', ''http://a/b/c/g''),
      (''./g'', ''http://a/b/c/g''),
      (''g/'', ''http://a/b/c/g/''),
      (''/g'', ''http://a/g''),
      (''//g'', ''http://g''),
      (''?y'', ''http://a/b/c/d;p?y''),
      (''g?y'', ''http://a/b/c/g?y''),
      (''#s'', ''http://a/b/c/d;p?q#s''),
      (''g#s'', ''http://a/b/c/g#s''),
      (''g?y#s'', ''http://a/b/c/g?y#s''),
      ('';x'', ''http://a/b/c/;x''),
      (''g;x'', ''http://a/b/c/g;x''),
      (''g;x?y#s'', ''http://a/b/c/g;x?y#s''),
      ('''', ''http://a/b/c/d;p?q''),
      (''.'', ''http://a/b/c/''),
      (''./'', ''http://a/b/c/''),
      (''..'', ''http://a/b/''),
      (''../'', ''http://a/b/''),
      (''../g'', ''http://a/b/g''),
      (''../..'', ''http://a/''),
      (''../../'', ''http://a/''),
      (''../../g'', ''http://a/g''),
      (''../../../g'', ''http://a/g''),
      (''../../../../g'', ''http://a/g''),
      (''/./g'', ''http://a/g''),
      (''/../g'', ''http://a/g''),
      (''g.'', ''http://a/b/c/g.''),
      (''.g'', ''http://a/b/c/.g''),
      (''g..'', ''http://a/b/c/g..''),
      (''..g'', ''http://a/b/c/..g''),
      (''./../g'', ''http://a/b/g''),
      (''./g/.'', ''http://a/b/c/g/''),
      (''g/./h'', ''http://a/b/c/g/h''),
      (''g/../h'', ''http://a/b/c/h''),
      (''g;x=1/./y'', ''http://a/b/c/g;x=1/y''),
      (''g;x=1/../y'', ''http://a/b/c/y''),
      (''g?y/./x'', ''http://a/b/c/g?y/./x''),
      (''g?y/../x'', ''http://a/b/c/g?y/../x''),
      (''g#s/./x'', ''http://a/b/c/g#s/./x''),
      (''g#s/../x'', ''http://a/b/c/g#s/../x'')]"

section \<open>Basic facts\<close>

lemma Contains_iff: "Contains xs v \<longleftrightarrow> v \<in> set xs"
  by (induction xs) auto


lemma buildHTTPRequest_Inl:
  "buildHTTPRequest c keyOrder request = Inl err \<Longrightarrow> \<exists>e. err = WithStack e"
  unfolding buildHTTPRequest_def Let_def
  by (auto split: sum.splits)

lemma buildHTTPRequest_Inr:
  assumes "buildHTTPRequest c keyOrder request = Inr q"
  obtains base requestURL q0 where
    "url_Parse (baseURL c) = Inr base"
    "URL_Parse base (Path request) = Inr requestURL"
    "NewRequestWithContext (Method request) (URL_String requestURL)
       (if Method request \<noteq> MethodGet \<and> Body request \<noteq> None then Body request else None) = Inr q0"
    "q = q0\<lparr>req_Header := addHeaders (req_Header q0) (Headers request) keyOrder\<rparr>"
  using assms unfolding buildHTTPRequest_def Let_def
  by (auto split: sum.splits)

lemma NewRequestWithContext_Inr:
  assumes "NewRequestWithContext method url requestBody = Inr q0"
  shows "req_Body q0 = (case requestBody of None \<Rightarrow> NilBody
                        | Some bs \<Rightarrow> if length bs = 0 then NoBody else BytesReader bs)"
    and "req_ContentLength q0 = (case requestBody of None \<Rightarrow> 0 | Some bs \<Rightarrow> length bs)"
    and "req_Header q0 = Map.empty"
    and "req_Method q0 = (if method = '''' then ''GET'' else method)"
  using assms unfolding NewRequestWithContext_def Let_def
  by (auto split: sum.splits if_splits)

section \<open>The exit paths of Do\<close>

lemma Do_build_failed:
  "buildHTTPRequest c keyOrder request = Inl err \<Longrightarrow>
   Do c keyOrder request edit = \<lparr>out_response = None, out_error = Some err, out_events = []\<rparr>"
  by (simp add: Do_def)

lemma Do_edit_failed:
  "buildHTTPRequest c keyOrder request = Inr q0 \<Longrightarrow> f q0 = (q, Some err) \<Longrightarrow>
   Do c keyOrder request (Some f) =
     \<lparr>out_response = None, out_error = Some (WithStack err), out_events = [EditCalled q0]\<rparr>"
  by (simp add: Do_def)

lemma sent_built:
  "sent c keyOrder request edit = Some q \<Longrightarrow>
   \<exists>q0. buildHTTPRequest c keyOrder request = Inr q0 \<and>
        (edit = None \<and> q = q0 \<or> (\<exists>f. edit = Some f \<and> f q0 = (q, None)))"
  by (cases "buildHTTPRequest c keyOrder request"; cases edit)
     (auto simp: sent_def split: prod.splits option.splits)

lemma Do_transport_failed:
  assumes "sent c keyOrder request edit = Some q" and "do c q = Inl err"
  shows "Do c keyOrder request edit =
     \<lparr>out_response = None, out_error = Some (WithStack err),
      out_events = editEvents c keyOrder request edit @ [DoCalled q]\<rparr>"
  using sent_built [OF assms(1)] assms(2)
  by (auto simp: Do_def editEvents_def)

lemma Do_rejected:
  assumes "sent c keyOrder request edit = Some q" and "do c q = Inr httpResponse"
    and "validateResponse httpResponse request = Some err"
  shows "Do c keyOrder request edit =
     \<lparr>out_response = None, out_error = Some err,
      out_events = editEvents c keyOrder request edit @ [DoCalled q, BodyClosed]\<rparr>"
  using sent_built [OF assms(1)] assms(2,3)
  by (auto simp: Do_def editEvents_def)

lemma Do_read_failed:
  assumes "sent c keyOrder request edit = Some q" and "do c q = Inr httpResponse"
    and "validateResponse httpResponse request = None"
    and "ReadAll (hres_Body httpResponse) = (responseBody, Some err)"
  shows "Do c keyOrder request edit =
     \<lparr>out_response = None, out_error = Some (WithStack err),
      out_events = editEvents c keyOrder request edit @ [DoCalled q, BodyRead, BodyClosed]\<rparr>"
  using sent_built [OF assms(1)] assms(2,3,4)
  by (auto simp: Do_def editEvents_def readResponse_def)

lemma Do_succeeded:
  assumes "sent c keyOrder request edit = Some q" and "do c q = Inr httpResponse"
    and "validateResponse httpResponse request = None"
    and "ReadAll (hres_Body httpResponse) = (responseBody, None)"
  shows "Do c keyOrder request edit =
     \<lparr>out_response = Some \<lparr>resp_StatusCode = hres_StatusCode httpResponse,
                             resp_Headers = hres_Header httpResponse,
                             resp_Body = responseBody\<rparr>,
      out_error = None,
      out_events = editEvents c keyOrder request edit @ [DoCalled q, BodyRead, BodyClosed]\<rparr>"
  using sent_built [OF assms(1)] assms(2,3,4)
  by (auto simp: Do_def editEvents_def readResponse_def)

lemma sent_None:
  assumes "sent c keyOrder request edit = None"
  obtains (build) err where "buildHTTPRequest c keyOrder request = Inl err"
  | (edit) q0 f q err where "buildHTTPRequest c keyOrder request = Inr q0" "edit = Some f"
      "f q0 = (q, Some err)"
  using assms
  by (cases "buildHTTPRequest c keyOrder request"; cases edit)
     (auto simp: sent_def split: prod.splits option.splits)

lemma received_sent:
  "sent c keyOrder request edit = Some q \<Longrightarrow>
   received c keyOrder request edit = (case do c q of Inl err \<Rightarrow> None | Inr r \<Rightarrow> Some r)"
  by (simp add: received_def)

lemma received_None_sent: "sent c keyOrder request edit = None \<Longrightarrow> received c keyOrder request edit = None"
  by (simp add: received_def)

lemma Do_cases [case_names build_failed edit_failed transport_failed rejected read_failed succeeded]:
  obtains
    (build_failed) err where
      "buildHTTPRequest c keyOrder request = Inl (WithStack err)"
      "received c keyOrder request edit = None"
      "Do c keyOrder request edit =
         \<lparr>out_response = None, out_error = Some (WithStack err), out_events = []\<rparr>"
  | (edit_failed) q0 f q err where
      "buildHTTPRequest c keyOrder request = Inr q0" "edit = Some f" "f q0 = (q, Some err)"
      "received c keyOrder request edit = None"
      "Do c keyOrder request edit =
         \<lparr>out_response = None, out_error = Some (WithStack err), out_events = [EditCalled q0]\<rparr>"
  | (transport_failed) q err where
      "sent c keyOrder request edit = Some q" "do c q = Inl err"
      "received c keyOrder request edit = None"
      "Do c keyOrder request edit =
         \<lparr>out_response = None, out_error = Some (WithStack err),
          out_events = editEvents c keyOrder request edit @ [DoCalled q]\<rparr>"
  | (rejected) q httpResponse err where
      "sent c keyOrder request edit = Some q" "do c q = Inr httpResponse"
      "received c keyOrder request edit = Some httpResponse"
      "validateResponse httpResponse request = Some err"
      "Do c keyOrder request edit =
         \<lparr>out_response = None, out_error = Some err,
          out_events = editEvents c keyOrder request edit @ [DoCalled q, BodyClosed]\<rparr>"
  | (read_failed) q httpResponse responseBody err where
      "sent c keyOrder request edit = Some q" "do c q = Inr httpResponse"
      "received c keyOrder request edit = Some httpResponse"
      "validateResponse httpResponse request = None"
      "ReadAll (hres_Body httpResponse) = (responseBody, Some err)"
      "Do c keyOrder request edit =
         \<lparr>out_response = None, out_error = Some (WithStack err),
          out_events = editEvents c keyOrder request edit @ [DoCalled q, BodyRead, BodyClosed]\<rparr>"
  | (succeeded) q httpResponse responseBody where
      "sent c keyOrder request edit = Some q" "do c q = Inr httpResponse"
      "received c keyOrder request edit = Some httpResponse"
      "validateResponse httpResponse request = None"
      "ReadAll (hres_Body httpResponse) = (responseBody, None)"
      "Do c keyOrder request edit =
         \<lparr>out_response = Some \<lparr>resp_StatusCode = hres_StatusCode httpResponse,
                                 resp_Headers = hres_Header httpResponse,
                                 resp_Body = responseBody\<rparr>,
          out_error = None,
          out_events = editEvents c keyOrder request edit @ [DoCalled q, BodyRead, BodyClosed]\<rparr>"
proof (cases "sent c keyOrder request edit")
  case None
  note rn = received_None_sent [OF None]
  from None show ?thesis
  proof (cases rule: sent_None)
    case (build err)
    from buildHTTPRequest_Inl [OF build] obtain e where e: "err = WithStack e" ..
    show ?thesis
      using build rn Do_build_failed [OF build, of edit] unfolding e by (rule build_failed)
  next
    case (edit q0 f q err)
    show ?thesis
      using edit rn Do_edit_failed [of c keyOrder request q0 f q err, OF edit(1,3), folded edit(2)]
      by (rule edit_failed)
  qed
next
  case (Some q)
  note s = Some
  show ?thesis
  proof (cases "do c q")
    case (Inl err)
    have "received c keyOrder request edit = None"
      using s Inl by (simp add: received_sent)
    with s Inl show ?thesis
      using Do_transport_failed [OF s Inl] by (rule transport_failed)
  next
    case (Inr httpResponse)
    have r: "received c keyOrder request edit = Some httpResponse"
      using s Inr by (simp add: received_sent)
    show ?thesis
    proof (cases "validateResponse httpResponse request")
      case (Some err)
      show ?thesis
        using s Inr r Some Do_rejected [OF s Inr Some] by (rule rejected)
    next
      case None
      obtain responseBody e where ra: "ReadAll (hres_Body httpResponse) = (responseBody, e)"
        by (cases "ReadAll (hres_Body httpResponse)")
      show ?thesis
      proof (cases e)
        case None2: None
        show ?thesis
          using s Inr r None ra Do_succeeded [OF s Inr None ra [unfolded None2]]
          unfolding None2 by (rule succeeded)
      next
        case (Some err)
        show ?thesis
          using s Inr r None ra Do_read_failed [OF s Inr None ra [unfolded Some]]
          unfolding Some by (rule read_failed)
      qed
    qed
  qed
qed

lemma editEvents_cases:
  "editEvents c keyOrder request edit = [] \<or>
   (\<exists>q0. buildHTTPRequest c keyOrder request = Inr q0 \<and> edit \<noteq> None \<and>
         editEvents c keyOrder request edit = [EditCalled q0])"
  by (auto simp: editEvents_def split: sum.splits option.splits)

lemma editEvents_no_stream_event [simp]:
  "BodyClosed \<notin> set (editEvents c keyOrder request edit)"
  "BodyRead \<notin> set (editEvents c keyOrder request edit)"
  "DoCalled q \<notin> set (editEvents c keyOrder request edit)"
  using editEvents_cases [of c keyOrder request edit] by auto

lemma count_editEvents [simp]:
  "count_list (editEvents c keyOrder request edit) BodyClosed = 0"
  "count_list (editEvents c keyOrder request edit) BodyRead = 0"
  by (simp_all add: count_list_0_iff)

lemma validateResponse_status:
  "ExpectedStatusCodes request \<noteq> [] \<Longrightarrow>
   hres_StatusCode httpResponse \<notin> set (ExpectedStatusCodes request) \<Longrightarrow>
   validateResponse httpResponse request = Some (UnexpectedStatusCode (hres_StatusCode httpResponse))"
  by (simp add: validateResponse_def Contains_iff)

lemma validateResponse_no_status_error:
  "ExpectedStatusCodes request = [] \<or> hres_StatusCode httpResponse \<in> set (ExpectedStatusCodes request) \<Longrightarrow>
   validateResponse httpResponse request \<noteq> Some (UnexpectedStatusCode n)"
  by (auto simp: validateResponse_def Contains_iff Let_def)

lemma sent_no_edit:
  "buildHTTPRequest c keyOrder request = Inr q \<Longrightarrow> sent c keyOrder request None = Some q"
  by (simp add: sent_def)

lemma received_no_edit:
  "buildHTTPRequest c keyOrder request = Inr q \<Longrightarrow> do c q = Inr httpResponse \<Longrightarrow>
   received c keyOrder request None = Some httpResponse"
  by (simp add: received_def sent_def)

section \<open>Case-insensitive prefixes\<close>



lemma HasPrefix_Nil [simp]: "HasPrefix s []"
  by (simp add: HasPrefix_def)

lemma HasPrefix_Cons_Nil [simp]: "\<not> HasPrefix [] (p # ps)"
  by (simp add: HasPrefix_def)

lemma HasPrefix_Cons_Cons [simp]: "HasPrefix (c # s) (p # ps) \<longleftrightarrow> c = p \<and> HasPrefix s ps"
  by (auto simp: HasPrefix_def)


section \<open>The example calls, evaluated\<close>

lemma parse_example_base: "url_Parse ''http://example.com'' = Inr exampleBase"
  by code_simp

lemma resolve_example: "URL_Parse exampleBase ''/test'' = Inr exampleTarget"
  by code_simp

lemma string_example: "URL_String exampleTarget = ''http://example.com/test''"
  by code_simp

lemma parse_example_target: "url_Parse ''http://example.com/test'' = Inr exampleTarget"
  by code_simp

lemma port_example: "removeEmptyPort ''example.com'' = ''example.com''"
  by code_simp

lemma validMethod_GET: "validMethod ''GET''"
  by code_simp

lemma built_example:
  assumes "baseURL c = ''http://example.com''" and "Path request = ''/test''"
    and "Method request = '''' \<or> validMethod (Method request)"
  shows "\<exists>q. buildHTTPRequest c keyOrder request = Inr q \<and> req_URL q = exampleTarget"
proof -
  have v: "validMethod (if Method request = '''' then ''GET'' else Method request)"
    using assms(3) validMethod_GET by auto
  have h: "u_Host exampleTarget = ''example.com''"
    by (simp add: exampleTarget_def emptyURL_def)
  have "exampleTarget\<lparr>u_Host := ''example.com''\<rparr> = exampleTarget"
    by (simp add: exampleTarget_def emptyURL_def)
  with v h show ?thesis
    by (simp add: buildHTTPRequest_def NewRequestWithContext_def assms(1,2)
        parse_example_base resolve_example string_example parse_example_target port_example Let_def)
qed

lemma exampleClient_simps [simp]:
  "baseURL (exampleClient transport) = ''http://example.com''"
  "do (exampleClient transport) = transport"
  by (simp_all add: exampleClient_def NewClient_def)

lemma validMethod_POST: "validMethod ''POST''"
  by code_simp

lemma example_requests_built:
  "\<exists>q. buildHTTPRequest (exampleClient transport) keyOrder getRequest = Inr q \<and> req_URL q = exampleTarget"
  "\<exists>q. buildHTTPRequest (exampleClient transport) keyOrder getWithBodyRequest = Inr q \<and> req_URL q = exampleTarget"
  "\<exists>q. buildHTTPRequest (exampleClient transport) keyOrder statusRequest = Inr q \<and> req_URL q = exampleTarget"
  "\<exists>q. buildHTTPRequest (exampleClient transport) keyOrder contentTypeRequest = Inr q \<and> req_URL q = exampleTarget"
  "\<exists>q. buildHTTPRequest (exampleClient transport) keyOrder strictRequest = Inr q \<and> req_URL q = exampleTarget"
  "\<exists>q. buildHTTPRequest (exampleClient transport) keyOrder postRequest = Inr q \<and> req_URL q = exampleTarget"
  "\<exists>q. buildHTTPRequest (exampleClient transport) keyOrder mixedCaseRequest = Inr q \<and> req_URL q = exampleTarget"
  by (rule built_example;
      simp add: getRequest_def getWithBodyRequest_def statusRequest_def contentTypeRequest_def
        strictRequest_def postRequest_def mixedCaseRequest_def validMethod_GET validMethod_POST)+

lemma stub_validates:
  "validateResponse (stubResponse 200 Map.empty text) getRequest = None"
  "validateResponse (stubResponse 500 Map.empty text) statusRequest = Some (UnexpectedStatusCode 500)"
  by (simp_all add: validateResponse_def stubResponse_def getRequest_def statusRequest_def)

lemma stub_ReadAll: "ReadAll (hres_Body (stubResponse code header text)) = (bytesOf text, None)"
  by (simp add: ReadAll_def stubResponse_def)

section \<open>The body of the built request\<close>

text \<open>
  C4. A request whose method is GET is built without a body, also when its \<open>Body\<close>
  field holds bytes: the body of the built request is nil and its content length 0.
\<close>

theorem get_request_carries_no_body:
  assumes "Method request = MethodGet" and "buildHTTPRequest c keyOrder request = Inr httpRequest"
  shows "req_Body httpRequest = NilBody \<and> req_ContentLength httpRequest = 0"
proof -
  from assms(2) obtain url q0 where
    n: "NewRequestWithContext (Method request) url
       (if Method request \<noteq> MethodGet \<and> Body request \<noteq> None then Body request else None) = Inr q0"
    and q: "httpRequest = q0\<lparr>req_Header := addHeaders (req_Header q0) (Headers request) keyOrder\<rparr>"
    by (rule buildHTTPRequest_Inr)
  from n assms(1) have "NewRequestWithContext (Method request) url None = Inr q0" by simp
  from NewRequestWithContext_Inr(1,2) [OF this] q show ?thesis by simp
qed

theorem get_request_carries_no_body_witness:
  "Method getWithBodyRequest = MethodGet \<and> Body getWithBodyRequest = Some (bytesOf ''{}'') \<and>
   (\<exists>httpRequest.
      buildHTTPRequest (exampleClient okTransport) [''Accept''] getWithBodyRequest = Inr httpRequest \<and>
      req_Body httpRequest = NilBody \<and> req_ContentLength httpRequest = 0)"
proof -
  have m: "Method getWithBodyRequest = MethodGet"
    by (simp add: getWithBodyRequest_def getRequest_def MethodGet_def)
  have b: "Body getWithBodyRequest = Some (bytesOf ''{}'')"
    by (simp add: getWithBodyRequest_def)
  from example_requests_built(2) obtain q where
    q: "buildHTTPRequest (exampleClient okTransport) [''Accept''] getWithBodyRequest = Inr q"
    by blast
  from get_request_carries_no_body [OF m q] m b q show ?thesis by simp
qed

text \<open>
  C5. A request whose method is not GET and whose \<open>Body\<close> field holds at least one
  byte is built with a body that reads exactly these bytes, and with their number as
  content length.
\<close>

theorem body_attached_unchanged:
  assumes "Method request \<noteq> MethodGet" and "Body request = Some bs" and "bs \<noteq> []"
    and "buildHTTPRequest c keyOrder request = Inr httpRequest"
  shows "req_Body httpRequest = BytesReader bs \<and> req_ContentLength httpRequest = length bs"
proof -
  from assms(4) obtain url q0 where
    n: "NewRequestWithContext (Method request) url
       (if Method request \<noteq> MethodGet \<and> Body request \<noteq> None then Body request else None) = Inr q0"
    and q: "httpRequest = q0\<lparr>req_Header := addHeaders (req_Header q0) (Headers request) keyOrder\<rparr>"
    by (rule buildHTTPRequest_Inr)
  from n assms(1,2) have "NewRequestWithContext (Method request) url (Some bs) = Inr q0" by simp
  from NewRequestWithContext_Inr(1,2) [OF this] q assms(3) show ?thesis by simp
qed

theorem body_attached_unchanged_witness:
  "Method postRequest \<noteq> MethodGet \<and> Body postRequest = Some (bytesOf ''{}'') \<and>
   bytesOf ''{}'' \<noteq> [] \<and>
   (\<exists>httpRequest.
      buildHTTPRequest (exampleClient okTransport) [''Content-Type''] postRequest = Inr httpRequest \<and>
      req_Body httpRequest = BytesReader (bytesOf ''{}'') \<and> req_ContentLength httpRequest = 2)"
proof -
  have m: "Method postRequest \<noteq> MethodGet" "Body postRequest = Some (bytesOf ''{}'')"
      "bytesOf ''{}'' \<noteq> []" "length (bytesOf ''{}'') = 2"
    by (simp_all add: postRequest_def MethodGet_def bytesOf_def)
  from example_requests_built(6) obtain q where
    q: "buildHTTPRequest (exampleClient okTransport) [''Content-Type''] postRequest = Inr q"
    by blast
  from body_attached_unchanged [OF m(1,2,3) q] m q show ?thesis by simp
qed

lemma example_received:
  assumes "\<exists>q. buildHTTPRequest (exampleClient transport) keyOrder request = Inr q \<and> req_URL q = exampleTarget"
    and "\<And>q. transport q = Inr httpResponse"
  shows "received (exampleClient transport) keyOrder request None = Some httpResponse"
  using assms by (auto simp: received_no_edit)

lemma received_examples:
  "received (exampleClient okTransport) keyOrder getRequest None =
     Some (stubResponse 200 Map.empty ''test response'')"
  "received (exampleClient serverErrorTransport) keyOrder statusRequest None =
     Some (stubResponse 500 Map.empty ''internal server error'')"
  "received (exampleClient serverErrorTransport) keyOrder getRequest None =
     Some (stubResponse 500 Map.empty ''internal server error'')"
  "received (exampleClient textPlainTransport) keyOrder contentTypeRequest None =
     Some (stubResponse 200 [''Content-Type'' \<mapsto> [''text/plain'']] ''unexpected content'')"
  "received (exampleClient jsonTransport) keyOrder contentTypeRequest None =
     Some (stubResponse 200 [''Content-Type'' \<mapsto> [''Application/JSON; charset=utf-8'']] ''{}'')"
  "received (exampleClient serverErrorTextTransport) keyOrder strictRequest None =
     Some (stubResponse 500 [''Content-Type'' \<mapsto> [''text/plain'']] ''internal server error'')"
  "received (exampleClient brokenStreamTransport) keyOrder getRequest None =
     Some \<lparr>hres_StatusCode = 200, hres_Header = Map.empty,
           hres_Body = \<lparr>st_data = bytesOf ''te'', st_err = Some (ErrorString ''unexpected EOF'')\<rparr>\<rparr>"
  by (rule example_received, rule example_requests_built,
      simp add: okTransport_def serverErrorTransport_def textPlainTransport_def jsonTransport_def
        serverErrorTextTransport_def brokenStreamTransport_def)+

section \<open>The two results of Do\<close>

text \<open>
  C10. Every call of \<open>Do\<close> returns either a response and a nil error, or a nil
  response and an error; never both, never neither.
\<close>

theorem Do_response_or_error:
  "(\<exists>response. out_response (Do c keyOrder request edit) = Some response \<and>
                out_error (Do c keyOrder request edit) = None) \<or>
   (\<exists>err. out_response (Do c keyOrder request edit) = None \<and>
           out_error (Do c keyOrder request edit) = Some err)"
  by (cases c keyOrder request edit rule: Do_cases) simp_all

theorem Do_response_or_error_witness:
  "(\<exists>response. out_response (Do (exampleClient okTransport) [''Accept''] getRequest None) = Some response) \<and>
   out_error (Do (exampleClient okTransport) [''Accept''] getRequest None) = None \<and>
   out_response (Do (exampleClient serverErrorTransport) [''Accept''] statusRequest None) = None \<and>
   (\<exists>err. out_error (Do (exampleClient serverErrorTransport) [''Accept''] statusRequest None) = Some err)"
proof -
  have ok: "out_error (Do (exampleClient okTransport) [''Accept''] getRequest None) = None"
    using received_examples(1) [of "[''Accept'']"]
    by (cases "exampleClient okTransport" "[''Accept'']" getRequest "None :: EditRequestFunc option"
        rule: Do_cases) (simp_all add: stub_validates stub_ReadAll)
  have bad: "out_response (Do (exampleClient serverErrorTransport) [''Accept''] statusRequest None) = None"
    using received_examples(2) [of "[''Accept'']"]
    by (cases "exampleClient serverErrorTransport" "[''Accept'']" statusRequest
        "None :: EditRequestFunc option" rule: Do_cases) (simp_all add: stub_validates)
  from ok bad
    Do_response_or_error [of "exampleClient okTransport" "[''Accept'']" getRequest None]
    Do_response_or_error [of "exampleClient serverErrorTransport" "[''Accept'']" statusRequest None]
  show ?thesis by simp
qed

section \<open>Closing the response stream\<close>

text \<open>
  C8. When the transport function has returned a response, the events of the call hold
  exactly one closing of the response stream, and it is the last event: the stream is
  closed once before \<open>Do\<close> returns, whether the call succeeds, the status or the
  content type is rejected, or reading the body fails.
\<close>

theorem stream_closed_once:
  assumes "received c keyOrder request edit = Some httpResponse"
  shows "count_list (out_events (Do c keyOrder request edit)) BodyClosed = 1 \<and>
         last (out_events (Do c keyOrder request edit)) = BodyClosed"
  using assms by (cases c keyOrder request edit rule: Do_cases) simp_all

theorem stream_closed_once_witness:
  "count_list (out_events (Do (exampleClient okTransport) [''Accept''] getRequest None)) BodyClosed = 1 \<and>
   count_list (out_events (Do (exampleClient serverErrorTransport) [''Accept''] statusRequest None)) BodyClosed = 1 \<and>
   count_list (out_events (Do (exampleClient textPlainTransport) [] contentTypeRequest None)) BodyClosed = 1 \<and>
   count_list (out_events (Do (exampleClient brokenStreamTransport) [''Accept''] getRequest None)) BodyClosed = 1"
  using stream_closed_once [OF received_examples(1)] stream_closed_once [OF received_examples(2)]
    stream_closed_once [OF received_examples(4)] stream_closed_once [OF received_examples(7)]
  by simp


lemma stub_content_type:
  "validateResponse (stubResponse 200 [''Content-Type'' \<mapsto> [''text/plain'']] text) contentTypeRequest =
     Some (UnexpectedContentType ''text/plain'')"
  "validateResponse (stubResponse 200 [''Content-Type'' \<mapsto> [''Application/JSON; charset=utf-8'']] text)
     contentTypeRequest = None"
  "validateResponse (stubResponse 500 [''Content-Type'' \<mapsto> [''text/plain'']] text) strictRequest =
     Some (UnexpectedStatusCode 500)"
  by code_simp+

lemma broken_stream:
  "validateResponse \<lparr>hres_StatusCode = 200, hres_Header = Map.empty,
           hres_Body = \<lparr>st_data = bytesOf ''te'', st_err = Some (ErrorString ''unexpected EOF'')\<rparr>\<rparr> getRequest = None"
  "ReadAll (hres_Body \<lparr>hres_StatusCode = 200, hres_Header = Map.empty,
           hres_Body = \<lparr>st_data = bytesOf ''te'', st_err = Some (ErrorString ''unexpected EOF'')\<rparr>\<rparr>)
     = (bytesOf ''te'', Some (ErrorString ''unexpected EOF''))"
  by (simp_all add: validateResponse_def getRequest_def ReadAll_def)

lemma example_outcomes:
  "out_error (Do (exampleClient okTransport) keyOrder getRequest None) = None"
  "out_error (Do (exampleClient serverErrorTransport) keyOrder statusRequest None) =
     Some (UnexpectedStatusCode 500)"
  "out_error (Do (exampleClient textPlainTransport) keyOrder contentTypeRequest None) =
     Some (UnexpectedContentType ''text/plain'')"
  "out_error (Do (exampleClient brokenStreamTransport) keyOrder getRequest None) =
     Some (WithStack (ErrorString ''unexpected EOF''))"
  "out_error (Do (exampleClient jsonTransport) keyOrder contentTypeRequest None) = None"
proof -
  show "out_error (Do (exampleClient okTransport) keyOrder getRequest None) = None"
    using received_examples(1) [of keyOrder]
    by (cases "exampleClient okTransport" keyOrder getRequest "None :: EditRequestFunc option"
        rule: Do_cases) (simp_all add: stub_validates stub_ReadAll)
  show "out_error (Do (exampleClient serverErrorTransport) keyOrder statusRequest None) =
     Some (UnexpectedStatusCode 500)"
    using received_examples(2) [of keyOrder]
    by (cases "exampleClient serverErrorTransport" keyOrder statusRequest "None :: EditRequestFunc option"
        rule: Do_cases) (simp_all add: stub_validates stub_ReadAll)
  show "out_error (Do (exampleClient textPlainTransport) keyOrder contentTypeRequest None) =
     Some (UnexpectedContentType ''text/plain'')"
    using received_examples(4) [of keyOrder]
    by (cases "exampleClient textPlainTransport" keyOrder contentTypeRequest "None :: EditRequestFunc option"
        rule: Do_cases) (simp_all add: stub_content_type stub_ReadAll)
  show "out_error (Do (exampleClient brokenStreamTransport) keyOrder getRequest None) =
     Some (WithStack (ErrorString ''unexpected EOF''))"
    using received_examples(7) [of keyOrder]
    by (cases "exampleClient brokenStreamTransport" keyOrder getRequest "None :: EditRequestFunc option"
        rule: Do_cases) (simp_all add: broken_stream ReadAll_def)
  show "out_error (Do (exampleClient jsonTransport) keyOrder contentTypeRequest None) = None"
    using received_examples(5) [of keyOrder]
    by (cases "exampleClient jsonTransport" keyOrder contentTypeRequest "None :: EditRequestFunc option"
        rule: Do_cases) (simp_all add: stub_content_type stub_ReadAll)
qed

lemma example_events:
  "\<exists>q. out_events (Do (exampleClient okTransport) keyOrder getRequest None) =
        [DoCalled q, BodyRead, BodyClosed]"
  "\<exists>q. out_events (Do (exampleClient serverErrorTextTransport) keyOrder strictRequest None) =
        [DoCalled q, BodyClosed]"
  "\<exists>q. out_events (Do (exampleClient jsonTransport) keyOrder contentTypeRequest None) =
        [DoCalled q, BodyRead, BodyClosed]"
proof -
  show "\<exists>q. out_events (Do (exampleClient okTransport) keyOrder getRequest None) =
        [DoCalled q, BodyRead, BodyClosed]"
    using received_examples(1) [of keyOrder]
    by (cases "exampleClient okTransport" keyOrder getRequest "None :: EditRequestFunc option"
        rule: Do_cases) (simp_all add: stub_validates stub_ReadAll editEvents_def split: sum.splits)
  show "\<exists>q. out_events (Do (exampleClient serverErrorTextTransport) keyOrder strictRequest None) =
        [DoCalled q, BodyClosed]"
    using received_examples(6) [of keyOrder]
    by (cases "exampleClient serverErrorTextTransport" keyOrder strictRequest
        "None :: EditRequestFunc option" rule: Do_cases)
       (simp_all add: stub_content_type editEvents_def split: sum.splits)
  show "\<exists>q. out_events (Do (exampleClient jsonTransport) keyOrder contentTypeRequest None) =
        [DoCalled q, BodyRead, BodyClosed]"
    using received_examples(5) [of keyOrder]
    by (cases "exampleClient jsonTransport" keyOrder contentTypeRequest
        "None :: EditRequestFunc option" rule: Do_cases)
       (simp_all add: stub_content_type stub_ReadAll editEvents_def split: sum.splits)
qed

section \<open>The order of validation and reading\<close>

text \<open>
  C9. The response body is read only in a call whose response passed
  \<open>validateResponse\<close>. When \<open>validateResponse\<close> rejects the response, the body is not
  read and \<open>Do\<close> returns that error with a nil response. The status is checked first:
  when the status code is not among the expected ones, the error is the
  unexpected-status error, whatever the content type is.
\<close>

theorem validation_before_read:
  "(BodyRead \<in> set (out_events (Do c keyOrder request edit)) \<longrightarrow>
      (\<exists>httpResponse. received c keyOrder request edit = Some httpResponse \<and>
                       validateResponse httpResponse request = None)) \<and>
   (received c keyOrder request edit = Some httpResponse \<and>
    validateResponse httpResponse request \<noteq> None \<longrightarrow>
      BodyRead \<notin> set (out_events (Do c keyOrder request edit)) \<and>
      out_response (Do c keyOrder request edit) = None \<and>
      out_error (Do c keyOrder request edit) = validateResponse httpResponse request) \<and>
   (received c keyOrder request edit = Some httpResponse \<and>
    ExpectedStatusCodes request \<noteq> [] \<and>
    hres_StatusCode httpResponse \<notin> set (ExpectedStatusCodes request) \<longrightarrow>
      out_error (Do c keyOrder request edit) =
        Some (UnexpectedStatusCode (hres_StatusCode httpResponse)))"
proof (intro conjI impI)
  assume "BodyRead \<in> set (out_events (Do c keyOrder request edit))"
  then show "\<exists>httpResponse. received c keyOrder request edit = Some httpResponse \<and>
                       validateResponse httpResponse request = None"
    by (cases c keyOrder request edit rule: Do_cases) simp_all
next
  assume a: "received c keyOrder request edit = Some httpResponse \<and>
    validateResponse httpResponse request \<noteq> None"
  then show "BodyRead \<notin> set (out_events (Do c keyOrder request edit))"
    and "out_response (Do c keyOrder request edit) = None"
    and "out_error (Do c keyOrder request edit) = validateResponse httpResponse request"
    by (cases c keyOrder request edit rule: Do_cases; simp)+
next
  assume a: "received c keyOrder request edit = Some httpResponse \<and>
    ExpectedStatusCodes request \<noteq> [] \<and>
    hres_StatusCode httpResponse \<notin> set (ExpectedStatusCodes request)"
  then have "validateResponse httpResponse request =
      Some (UnexpectedStatusCode (hres_StatusCode httpResponse))"
    by (simp add: validateResponse_def Contains_iff)
  with a show "out_error (Do c keyOrder request edit) =
        Some (UnexpectedStatusCode (hres_StatusCode httpResponse))"
    by (cases c keyOrder request edit rule: Do_cases) simp_all
qed

theorem validation_before_read_witness:
  "BodyRead \<in> set (out_events (Do (exampleClient okTransport) [''Accept''] getRequest None)) \<and>
   received (exampleClient okTransport) [''Accept''] getRequest None =
     Some (stubResponse 200 Map.empty ''test response'') \<and>
   validateResponse (stubResponse 200 Map.empty ''test response'') getRequest = None \<and>
   received (exampleClient serverErrorTextTransport) [] strictRequest None =
     Some (stubResponse 500 [''Content-Type'' \<mapsto> [''text/plain'']] ''internal server error'') \<and>
   ExpectedStatusCodes strictRequest = [200] \<and>
   ExpectedContentTypes strictRequest = [''application/json''] \<and>
   BodyRead \<notin> set (out_events (Do (exampleClient serverErrorTextTransport) [] strictRequest None)) \<and>
   out_error (Do (exampleClient serverErrorTextTransport) [] strictRequest None) =
     Some (UnexpectedStatusCode 500)"
proof -
  let ?bad = "stubResponse 500 [''Content-Type'' \<mapsto> [''text/plain'']] ''internal server error''"
  have r: "BodyRead \<in> set (out_events (Do (exampleClient okTransport) [''Accept''] getRequest None))"
    using example_events(1) [of "[''Accept'']"] by auto
  have s: "ExpectedStatusCodes strictRequest = [200]"
      "ExpectedContentTypes strictRequest = [''application/json'']"
      "hres_StatusCode ?bad = 500"
    by (simp_all add: strictRequest_def stubResponse_def)
  from r s received_examples(1) [of "[''Accept'']"] received_examples(6) [of "[]"]
    stub_content_type(3) [of "''internal server error''"]
    validation_before_read [of "exampleClient okTransport" "[''Accept'']" getRequest None
      "stubResponse 200 Map.empty ''test response''"]
    validation_before_read [of "exampleClient serverErrorTextTransport" "[]" strictRequest None ?bad]
  show ?thesis by simp
qed

section \<open>Status validation\<close>

text \<open>
  C3. When the transport function has returned a response, the list of expected status
  codes is not empty and the status code of the response is not in it, \<open>Do\<close> returns
  no response and the unexpected-status error that carries this code. When the list of
  expected status codes is empty, no status code makes \<open>validateResponse\<close> or \<open>Do\<close>
  return an unexpected-status error.
\<close>

theorem status_validation:
  "(received c keyOrder request edit = Some httpResponse \<and>
    ExpectedStatusCodes request \<noteq> [] \<and>
    hres_StatusCode httpResponse \<notin> set (ExpectedStatusCodes request) \<longrightarrow>
      out_response (Do c keyOrder request edit) = None \<and>
      out_error (Do c keyOrder request edit) =
        Some (UnexpectedStatusCode (hres_StatusCode httpResponse))) \<and>
   (ExpectedStatusCodes request = [] \<longrightarrow>
      (\<forall>n. validateResponse httpResponse request \<noteq> Some (UnexpectedStatusCode n)) \<and>
      (\<forall>n. out_error (Do c keyOrder request edit) \<noteq> Some (UnexpectedStatusCode n)))"
proof (intro conjI impI allI)
  assume a: "received c keyOrder request edit = Some httpResponse \<and>
    ExpectedStatusCodes request \<noteq> [] \<and>
    hres_StatusCode httpResponse \<notin> set (ExpectedStatusCodes request)"
  then have v: "validateResponse httpResponse request =
      Some (UnexpectedStatusCode (hres_StatusCode httpResponse))"
    by (simp add: validateResponse_status)
  from a v show "out_response (Do c keyOrder request edit) = None"
    by (cases c keyOrder request edit rule: Do_cases) simp_all
  from a v show "out_error (Do c keyOrder request edit) =
        Some (UnexpectedStatusCode (hres_StatusCode httpResponse))"
    by (cases c keyOrder request edit rule: Do_cases) simp_all
next
  fix n
  assume e: "ExpectedStatusCodes request = []"
  then show "validateResponse httpResponse request \<noteq> Some (UnexpectedStatusCode n)"
    by (simp add: validateResponse_no_status_error)
  show "out_error (Do c keyOrder request edit) \<noteq> Some (UnexpectedStatusCode n)"
  proof (cases c keyOrder request edit rule: Do_cases)
    case (rejected q httpResponse err)
    with e validateResponse_no_status_error [of request httpResponse n] show ?thesis by auto
  qed simp_all
qed

theorem status_validation_witness:
  "received (exampleClient serverErrorTransport) [''Accept''] statusRequest None =
     Some (stubResponse 500 Map.empty ''internal server error'') \<and>
   ExpectedStatusCodes statusRequest = [200] \<and>
   out_response (Do (exampleClient serverErrorTransport) [''Accept''] statusRequest None) = None \<and>
   out_error (Do (exampleClient serverErrorTransport) [''Accept''] statusRequest None) =
     Some (UnexpectedStatusCode 500) \<and>
   ExpectedStatusCodes getRequest = [] \<and>
   validateResponse (stubResponse 500 Map.empty ''internal server error'') getRequest \<noteq>
     Some (UnexpectedStatusCode 500) \<and>
   out_error (Do (exampleClient serverErrorTransport) [''Accept''] getRequest None) \<noteq>
     Some (UnexpectedStatusCode 500)"
proof -
  let ?resp = "stubResponse 500 Map.empty ''internal server error''"
  have s: "ExpectedStatusCodes statusRequest = [200]" "hres_StatusCode ?resp = 500"
      "ExpectedStatusCodes getRequest = []"
    by (simp_all add: statusRequest_def getRequest_def stubResponse_def)
  from s received_examples(2) [of "[''Accept'']"]
    status_validation [of "exampleClient serverErrorTransport" "[''Accept'']" statusRequest None ?resp]
    status_validation [of "exampleClient serverErrorTransport" "[''Accept'']" getRequest None ?resp]
  show ?thesis by simp
qed

section \<open>The edit hook\<close>

text \<open>
  C2. In a call with a hook, once the request is built the hook is called with it before
  anything else happens. When the hook returns an error, \<open>Do\<close> returns that error
  wrapped and a nil response and the call of the hook is the only event: the transport
  function is not called. When the hook returns nil, the next event is the call of the
  transport function with the request as the hook left it, and the hook is not called
  again.
\<close>

theorem edit_hook_before_transport:
  assumes "buildHTTPRequest c keyOrder request = Inr q0"
  shows "(f q0 = (q, Some err) \<longrightarrow>
            out_response (Do c keyOrder request (Some f)) = None \<and>
            out_error (Do c keyOrder request (Some f)) = Some (WithStack err) \<and>
            out_events (Do c keyOrder request (Some f)) = [EditCalled q0]) \<and>
         (f q0 = (q, None) \<longrightarrow>
            (\<exists>rest. out_events (Do c keyOrder request (Some f)) = EditCalled q0 # DoCalled q # rest \<and>
                    set rest \<subseteq> {BodyRead, BodyClosed}))"
proof (intro conjI impI)
  assume f: "f q0 = (q, Some err)"
  from Do_edit_failed [of c keyOrder request q0 f q err, OF assms f]
  show "out_response (Do c keyOrder request (Some f)) = None"
    and "out_error (Do c keyOrder request (Some f)) = Some (WithStack err)"
    and "out_events (Do c keyOrder request (Some f)) = [EditCalled q0]"
    by simp_all
next
  assume f: "f q0 = (q, None)"
  have s: "sent c keyOrder request (Some f) = Some q"
    using assms f by (simp add: sent_def)
  have e: "editEvents c keyOrder request (Some f) = [EditCalled q0]"
    using assms by (simp add: editEvents_def)
  show "\<exists>rest. out_events (Do c keyOrder request (Some f)) = EditCalled q0 # DoCalled q # rest \<and>
                    set rest \<subseteq> {BodyRead, BodyClosed}"
    using s e assms f by (cases c keyOrder request "Some f :: EditRequestFunc option" rule: Do_cases) auto
qed

theorem edit_hook_before_transport_witness:
  "\<exists>q0. buildHTTPRequest (exampleClient okTransport) [''Content-Type''] postRequest = Inr q0 \<and>
     failingEdit q0 = (q0, Some (ErrorString ''edit failed'')) \<and>
     out_error (Do (exampleClient okTransport) [''Content-Type''] postRequest (Some failingEdit)) =
       Some (WithStack (ErrorString ''edit failed'')) \<and>
     out_events (Do (exampleClient okTransport) [''Content-Type''] postRequest (Some failingEdit)) =
       [EditCalled q0] \<and>
     setCustomHeader q0 = (fst (setCustomHeader q0), None) \<and>
     (\<exists>rest.
        out_events (Do (exampleClient okTransport) [''Content-Type''] postRequest (Some setCustomHeader)) =
          EditCalled q0 # DoCalled (fst (setCustomHeader q0)) # rest)"
proof -
  from example_requests_built(6) obtain q0 where
    q: "buildHTTPRequest (exampleClient okTransport) [''Content-Type''] postRequest = Inr q0"
    by blast
  have f: "failingEdit q0 = (q0, Some (ErrorString ''edit failed''))"
    by (simp add: failingEdit_def)
  have g: "setCustomHeader q0 = (fst (setCustomHeader q0), None)"
    by (simp add: setCustomHeader_def)
  from q f g
    edit_hook_before_transport [OF q, of failingEdit q0 "ErrorString ''edit failed''"]
    edit_hook_before_transport [OF q, of setCustomHeader "fst (setCustomHeader q0)"]
  show ?thesis by blast
qed

section \<open>Content-type validation\<close>





section \<open>Canonical header names\<close>

lemma isUpper_lowerByte [simp]: "\<not> isUpper (lowerByte c)"
proof (cases "isUpper c")
  case True
  have "(of_char c :: nat) + 32 < 256" using True by (simp add: isUpper_def)
  then have "(of_char (char_of (of_char c + 32 :: nat)) :: nat) = of_char c + 32" by simp
  with True show ?thesis by (simp add: lowerByte_def isUpper_def)
next
  case False
  then show ?thesis by (simp add: lowerByte_def)
qed

lemma lowerByte_idem [simp]: "lowerByte (lowerByte c) = lowerByte c"
  using isUpper_lowerByte [of c] by (simp add: lowerByte_def [of "lowerByte c"])

lemma isLower_lowerByte: "isLower (lowerByte c) \<longleftrightarrow> isLower c \<or> isUpper c"
proof (cases "isUpper c")
  case True
  have "(of_char c :: nat) + 32 < 256" using True by (simp add: isUpper_def)
  then have "(of_char (char_of (of_char c + 32 :: nat)) :: nat) = of_char c + 32" by simp
  with True show ?thesis by (simp add: lowerByte_def isUpper_def isLower_def)
next
  case False
  then show ?thesis by (simp add: lowerByte_def)
qed

lemma upperByte_lowerByte: "isUpper c \<Longrightarrow> upperByte (lowerByte c) = c"
proof -
  assume u: "isUpper c"
  have "(of_char c :: nat) + 32 < 256" using u by (simp add: isUpper_def)
  then have e: "(of_char (char_of (of_char c + 32 :: nat)) :: nat) = of_char c + 32" by simp
  have "isLower (lowerByte c)" using u by (simp add: isLower_lowerByte)
  then have "upperByte (lowerByte c) = char_of ((of_char (lowerByte c) :: nat) - 32)"
    by (simp add: upperByte_def)
  also have "\<dots> = char_of (of_char c :: nat)"
    using u e by (simp add: lowerByte_def)
  finally show ?thesis by simp
qed

lemma lowerByte_upperByte [simp]: "lowerByte (upperByte c) = lowerByte c"
proof (cases "isLower c")
  case True
  define n where "n = (of_char c :: nat)"
  have r: "97 \<le> n" "n \<le> 122" using True by (simp_all add: isLower_def n_def)
  have u: "upperByte c = char_of (n - 32)" using True by (simp add: upperByte_def n_def)
  have "n - 32 < 256" using r by arith
  then have e: "(of_char (char_of (n - 32)) :: nat) = n - 32" by simp
  have b: "65 \<le> n - 32" "n - 32 \<le> 90" "n - 32 + 32 = n" using r by arith+
  have "lowerByte (upperByte c) = char_of n"
    unfolding u lowerByte_def isUpper_def e using b by simp
  also have "\<dots> = c" by (simp add: n_def)
  also have "\<dots> = lowerByte c"
    using r by (simp add: lowerByte_def isUpper_def n_def [symmetric])
  finally show ?thesis .
next
  case False
  then show ?thesis by (simp add: upperByte_def)
qed

lemma isUpper_not_isLower: "isUpper c \<Longrightarrow> \<not> isLower c"
  by (simp add: isUpper_def isLower_def)

lemma canonicalLoop_ToLower: "canonicalLoop upper (ToLower s) = canonicalLoop upper s"
proof (induction s arbitrary: upper)
  case Nil
  then show ?case by (simp add: ToLower_def)
next
  case (Cons c s)
  have step: "(if upper \<and> isLower (lowerByte c) then upperByte (lowerByte c)
               else if \<not> upper \<and> isUpper (lowerByte c) then lowerByte (lowerByte c)
               else lowerByte c) =
              (if upper \<and> isLower c then upperByte c
               else if \<not> upper \<and> isUpper c then lowerByte c
               else c)"
  proof (cases "isUpper c")
    case True
    then show ?thesis
      by (simp add: isLower_lowerByte upperByte_lowerByte isUpper_not_isLower)
  next
    case False
    then have "lowerByte c = c" by (simp add: lowerByte_def)
    with False show ?thesis by simp
  qed
  from Cons.IH show ?case
    by (simp add: ToLower_def Let_def step del: lowerByte_idem)
qed

lemma ToLower_canonicalLoop: "ToLower (canonicalLoop upper s) = ToLower s"
  by (induction s arbitrary: upper) (simp_all add: ToLower_def Let_def)

lemma validHeaderFieldByte_lowerByte:
  "validHeaderFieldByte (lowerByte c) \<longleftrightarrow> validHeaderFieldByte c"
proof (cases "isUpper c")
  case True
  then have "isLower (lowerByte c)" by (simp add: isLower_lowerByte)
  with True show ?thesis by (simp add: validHeaderFieldByte_def)
next
  case False
  then show ?thesis by (simp add: lowerByte_def)
qed

lemma valid_ToLower:
  "list_all validHeaderFieldByte (ToLower s) \<longleftrightarrow> list_all validHeaderFieldByte s"
  by (induction s) (simp_all add: ToLower_def validHeaderFieldByte_lowerByte)

lemma canonical_of_case_variants:
  assumes "ToLower k1 = ToLower k2"
  shows "CanonicalMIMEHeaderKey k1 = CanonicalMIMEHeaderKey k2 \<or>
         (\<not> list_all validHeaderFieldByte k1 \<and> \<not> list_all validHeaderFieldByte k2)"
proof -
  have v: "list_all validHeaderFieldByte k1 \<longleftrightarrow> list_all validHeaderFieldByte k2"
    using valid_ToLower [of k1] valid_ToLower [of k2] assms by simp
  have "canonicalLoop True k1 = canonicalLoop True k2"
    using canonicalLoop_ToLower [of True k1] canonicalLoop_ToLower [of True k2] assms by simp
  with v show ?thesis by (auto simp: CanonicalMIMEHeaderKey_def)
qed

lemma ToLower_Canonical: "ToLower (CanonicalMIMEHeaderKey k) = ToLower k"
  by (simp add: CanonicalMIMEHeaderKey_def ToLower_canonicalLoop)

section \<open>The header loops\<close>

lemma addValues_apply:
  "addValues h key vs name =
     (if CanonicalMIMEHeaderKey key = name \<and> vs \<noteq> []
      then Some ((case h name of None \<Rightarrow> [] | Some ws \<Rightarrow> ws) @ vs)
      else h name)"
  by (induction vs arbitrary: h) (auto simp: Header_Add_def Let_def)

lemma mergedValues_Nil [simp]: "mergedValues m [] name = []"
  by (simp add: mergedValues_def)

lemma mergedValues_Cons:
  "mergedValues m (key # keys) name =
     (if CanonicalMIMEHeaderKey key = name
      then (case m key of None \<Rightarrow> [] | Some vs \<Rightarrow> vs) @ mergedValues m keys name
      else mergedValues m keys name)"
  by (simp add: mergedValues_def)

lemma mergedValues_append:
  "mergedValues m (xs @ ys) name = mergedValues m xs name @ mergedValues m ys name"
  by (simp add: mergedValues_def)

lemma addHeaders_apply:
  "addHeaders h m keys name =
     (if mergedValues m keys name = [] then h name
      else Some ((case h name of None \<Rightarrow> [] | Some ws \<Rightarrow> ws) @ mergedValues m keys name))"
proof (induction keys arbitrary: h)
  case Nil
  then show ?case by simp
next
  case (Cons key keys)
  show ?case
    by (simp add: Cons.IH addValues_apply mergedValues_Cons split: option.splits)
qed

lemma built_header:
  assumes "buildHTTPRequest c keyOrder request = Inr httpRequest"
  shows "req_Header httpRequest name =
     (if mergedValues (Headers request) keyOrder name = [] then None
      else Some (mergedValues (Headers request) keyOrder name))"
proof -
  from assms obtain url body q0 where
    n: "NewRequestWithContext (Method request) url body = Inr q0"
    and q: "httpRequest = q0\<lparr>req_Header := addHeaders (req_Header q0) (Headers request) keyOrder\<rparr>"
    by (rule buildHTTPRequest_Inr)
  from NewRequestWithContext_Inr(3) [OF n] q show ?thesis
    by (simp add: addHeaders_apply)
qed

lemma mergedValues_nonempty:
  "mergedValues m keys name \<noteq> [] \<Longrightarrow> \<exists>key \<in> set keys. CanonicalMIMEHeaderKey key = name"
  by (induction keys) (auto simp: mergedValues_Cons split: if_splits)

lemma two_positions:
  assumes "distinct xs" and "a \<in> set xs" and "b \<in> set xs" and "a \<noteq> b"
  shows "\<exists>p m s. xs = p @ a # m @ b # s \<or> xs = p @ b # m @ a # s"
proof -
  from assms(2) obtain p s where xs: "xs = p @ a # s" by (auto dest: split_list)
  from assms(3,4) xs have "b \<in> set p \<or> b \<in> set s" by auto
  then show ?thesis
  proof
    assume "b \<in> set p"
    then obtain p1 p2 where "p = p1 @ b # p2" by (auto dest: split_list)
    with xs have "xs = p1 @ b # p2 @ a # s" by simp
    then show ?thesis by blast
  next
    assume "b \<in> set s"
    then obtain s1 s2 where "s = s1 @ b # s2" by (auto dest: split_list)
    with xs have "xs = p @ a # s1 @ b # s2" by simp
    then show ?thesis by blast
  qed
qed

section \<open>Header names that differ by letter case\<close>

text \<open>
  C7, as amended. Take a request whose \<open>Headers\<close> map holds two different keys that are
  equal up to letter case and are made of header-token bytes, at least one of them with
  a value. The built request then has one entry for them, under their common canonical
  name, and no entry under another spelling of that name. The entry holds the values of
  all keys with this canonical name: the values of each key stay together in the order
  supplied, and the blocks of the two keys stand in the order in which the map iteration
  visited the keys.
\<close>

theorem case_variant_keys_merge:
  assumes "buildHTTPRequest c keyOrder request = Inr httpRequest"
    and "rangeOrder (Headers request) keyOrder"
    and "Headers request k1 = Some vs1" and "Headers request k2 = Some vs2"
    and "k1 \<noteq> k2" and "ToLower k1 = ToLower k2"
    and "list_all validHeaderFieldByte k1"
    and "vs1 @ vs2 \<noteq> []"
  shows "CanonicalMIMEHeaderKey k2 = CanonicalMIMEHeaderKey k1 \<and>
         req_Header httpRequest (CanonicalMIMEHeaderKey k1) =
           Some (mergedValues (Headers request) keyOrder (CanonicalMIMEHeaderKey k1)) \<and>
         (\<forall>name. req_Header httpRequest name \<noteq> None \<and> ToLower name = ToLower k1 \<longrightarrow>
                 name = CanonicalMIMEHeaderKey k1) \<and>
         (\<exists>a b d. mergedValues (Headers request) keyOrder (CanonicalMIMEHeaderKey k1) =
                     a @ vs1 @ b @ vs2 @ d \<or>
                  mergedValues (Headers request) keyOrder (CanonicalMIMEHeaderKey k1) =
                     a @ vs2 @ b @ vs1 @ d)"
proof -
  let ?K = "CanonicalMIMEHeaderKey k1"
  let ?mv = "\<lambda>keys. mergedValues (Headers request) keys ?K"
  have same: "CanonicalMIMEHeaderKey k2 = ?K"
    using canonical_of_case_variants [OF assms(6)] assms(7) by auto
  have "distinct keyOrder" "k1 \<in> set keyOrder" "k2 \<in> set keyOrder"
    using assms(2,3,4) by (auto simp: rangeOrder_def)
  from two_positions [OF this assms(5)] obtain p m s where
    o: "keyOrder = p @ k1 # m @ k2 # s \<or> keyOrder = p @ k2 # m @ k1 # s"
    by blast
  then have blocks: "?mv keyOrder = ?mv p @ vs1 @ ?mv m @ vs2 @ ?mv s \<or>
                     ?mv keyOrder = ?mv p @ vs2 @ ?mv m @ vs1 @ ?mv s"
    using same assms(3,4) by (auto simp: mergedValues_append mergedValues_Cons)
  then have ne: "?mv keyOrder \<noteq> []"
    using assms(8) by auto
  have entry: "req_Header httpRequest ?K = Some (?mv keyOrder)"
    using built_header [OF assms(1), of ?K] ne by simp
  have single: "name = ?K"
    if "req_Header httpRequest name \<noteq> None" and "ToLower name = ToLower k1" for name
  proof -
    from that(1) built_header [OF assms(1), of name]
    have "mergedValues (Headers request) keyOrder name \<noteq> []" by (auto split: if_splits)
    from mergedValues_nonempty [OF this] obtain key where
      key: "CanonicalMIMEHeaderKey key = name" by blast
    then have "ToLower key = ToLower k1"
      using that(2) ToLower_Canonical [of key] by simp
    from canonical_of_case_variants [OF this] assms(7) key show ?thesis by auto
  qed
  from same entry single blocks show ?thesis by blast
qed

lemma mixedCase_facts:
  "rangeOrder (Headers mixedCaseRequest) [''content-type'', ''Content-Type'']"
  "rangeOrder (Headers mixedCaseRequest) [''Content-Type'', ''content-type'']"
  "Headers mixedCaseRequest ''content-type'' = Some [''application/json'']"
  "Headers mixedCaseRequest ''Content-Type'' = Some [''text/plain'']"
  by (auto simp: rangeOrder_def mixedCaseRequest_def)

lemma mixedCase_keys:
  "ToLower ''content-type'' = ToLower ''Content-Type''"
  "list_all validHeaderFieldByte ''content-type''"
  "CanonicalMIMEHeaderKey ''content-type'' = ''Content-Type''"
  by code_simp+

lemma mixedCase_merged:
  "mergedValues (Headers mixedCaseRequest) [''content-type'', ''Content-Type''] ''Content-Type'' =
     [''application/json'', ''text/plain'']"
  "mergedValues (Headers mixedCaseRequest) [''Content-Type'', ''content-type''] ''Content-Type'' =
     [''text/plain'', ''application/json'']"
  by code_simp+

text \<open>
  The order of the values is not a matter of the request alone: both orders below are
  iteration orders of the same map, and the values of the merged entry come out in
  either order.
\<close>

theorem header_value_order_counterexample:
  "rangeOrder (Headers mixedCaseRequest) [''content-type'', ''Content-Type''] \<and>
   rangeOrder (Headers mixedCaseRequest) [''Content-Type'', ''content-type''] \<and>
   builtHeader (exampleClient okTransport) [''content-type'', ''Content-Type''] mixedCaseRequest
     ''Content-Type'' = Some [''application/json'', ''text/plain''] \<and>
   builtHeader (exampleClient okTransport) [''Content-Type'', ''content-type''] mixedCaseRequest
     ''Content-Type'' = Some [''text/plain'', ''application/json'']"
proof -
  have "builtHeader (exampleClient okTransport) keyOrder mixedCaseRequest ''Content-Type'' =
      (if mergedValues (Headers mixedCaseRequest) keyOrder ''Content-Type'' = [] then None
       else Some (mergedValues (Headers mixedCaseRequest) keyOrder ''Content-Type''))" for keyOrder
    using example_requests_built(7) [of okTransport keyOrder]
    by (auto simp: builtHeader_def built_header)
  then show ?thesis
    by (simp add: mixedCase_facts mixedCase_merged)
qed

theorem case_variant_keys_merge_witness:
  "\<exists>httpRequest.
     buildHTTPRequest (exampleClient okTransport) [''Content-Type'', ''content-type''] mixedCaseRequest =
       Inr httpRequest \<and>
     rangeOrder (Headers mixedCaseRequest) [''Content-Type'', ''content-type''] \<and>
     Headers mixedCaseRequest ''content-type'' = Some [''application/json''] \<and>
     Headers mixedCaseRequest ''Content-Type'' = Some [''text/plain''] \<and>
     ToLower ''content-type'' = ToLower ''Content-Type'' \<and>
     list_all validHeaderFieldByte ''content-type'' \<and>
     CanonicalMIMEHeaderKey ''content-type'' = ''Content-Type'' \<and>
     req_Header httpRequest ''Content-Type'' = Some [''text/plain'', ''application/json''] \<and>
     req_Header httpRequest ''content-type'' = None"
proof -
  from example_requests_built(7) obtain q where
    q: "buildHTTPRequest (exampleClient okTransport) [''Content-Type'', ''content-type'']
          mixedCaseRequest = Inr q"
    by blast
  have ne: "''content-type'' \<noteq> ''Content-Type''" "[''application/json''] @ [''text/plain''] \<noteq> []"
    by simp_all
  note t = case_variant_keys_merge [OF q mixedCase_facts(2) mixedCase_facts(3) mixedCase_facts(4)
      ne(1) mixedCase_keys(1) mixedCase_keys(2) ne(2)]
  from t have e: "req_Header q ''Content-Type'' = Some [''text/plain'', ''application/json'']"
    by (simp add: mixedCase_keys(3) mixedCase_merged)
  from t have "req_Header q ''content-type'' \<noteq> None \<longrightarrow> ''content-type'' = ''Content-Type''"
    by (simp add: mixedCase_keys(3))
  then have n: "req_Header q ''content-type'' = None" by simp
  from q e n mixedCase_facts mixedCase_keys show ?thesis by simp
qed

lemma builtAddress_requestAddress:
  assumes "Method request = '''' \<or> validMethod (Method request)"
  shows "builtAddress c keyOrder request = requestAddress (baseURL c) (Path request)"
proof (cases "url_Parse (baseURL c)")
  case (Inl err)
  then show ?thesis
    by (simp add: builtAddress_def buildHTTPRequest_def requestAddress_def)
next
  case b: (Inr base)
  show ?thesis
  proof (cases "URL_Parse base (Path request)")
    case (Inl err)
    with b show ?thesis
      by (simp add: builtAddress_def buildHTTPRequest_def requestAddress_def)
  next
    case u: (Inr requestURL)
    have v: "validMethod (if Method request = '''' then ''GET'' else Method request)"
      using assms validMethod_GET by auto
    show ?thesis
    proof (cases "url_Parse (URL_String requestURL)")
      case (Inl err)
      with b u v show ?thesis
        by (simp add: builtAddress_def buildHTTPRequest_def requestAddress_def
            NewRequestWithContext_def Let_def)
    next
      case (Inr u')
      with b u v show ?thesis
        by (simp add: builtAddress_def buildHTTPRequest_def requestAddress_def
            NewRequestWithContext_def Let_def)
    qed
  qed
qed

lemma rfc_examples_resolved:
  "list_all (\<lambda>(ref, target). requestAddress rfcBase ref = Some target) rfcExamples"
  by code_simp

lemma more_addresses:
  "requestAddress ''http://example.com'' ''/test'' = Some ''http://example.com/test''"
  "requestAddress ''http://example.com/api/v1'' ''/test'' = Some ''http://example.com/test''"
  "requestAddress ''http://example.com/api/v1'' ''users'' = Some ''http://example.com/api/users''"
  "requestAddress ''http://example.com/api/v1/'' ''../x'' = Some ''http://example.com/api/x''"
  "requestAddress ''http://example.com/api/v1/'' ''./x/../y/.'' = Some ''http://example.com/api/v1/y/''"
  by code_simp+

section \<open>The address of the built request\<close>

text \<open>
  C6. The address of the built request is the reference in \<open>Path\<close> resolved against the
  base address by \<open>ResolveReference\<close> (written out and parsed again by
  \<open>NewRequestWithContext\<close>). For the base \<open>http://example.com\<close> and the path \<open>/test\<close>
  the address is \<open>http://example.com/test\<close>. It is not the concatenation of the two:
  against the base \<open>http://example.com/api/v1\<close> the path \<open>/test\<close> gives
  \<open>http://example.com/test\<close> and the path \<open>users\<close> gives \<open>http://example.com/api/users\<close>;
  the segments \<open>.\<close> and \<open>..\<close> are resolved, so that against
  \<open>http://example.com/api/v1/\<close> the path \<open>../x\<close> gives \<open>http://example.com/api/x\<close>. It is
  the resolution of the standard: for every reference resolution example of RFC 3986,
  sections 5.4.1 and 5.4.2, the built request has the address the standard gives.
\<close>

theorem path_resolved_against_base:
  "(buildHTTPRequest c keyOrder request = Inr httpRequest \<longrightarrow>
      (\<exists>base ref u.
         url_Parse (baseURL c) = Inr base \<and> url_Parse (Path request) = Inr ref \<and>
         url_Parse (URL_String (ResolveReference base ref)) = Inr u \<and>
         req_URL httpRequest = u\<lparr>u_Host := removeEmptyPort (u_Host u)\<rparr>)) \<and>
   (Method request = '''' \<or> validMethod (Method request) \<longrightarrow>
      (baseURL c = ''http://example.com'' \<and> Path request = ''/test'' \<longrightarrow>
         builtAddress c keyOrder request = Some ''http://example.com/test'') \<and>
      (baseURL c = ''http://example.com/api/v1'' \<and> Path request = ''/test'' \<longrightarrow>
         builtAddress c keyOrder request = Some ''http://example.com/test'') \<and>
      (baseURL c = ''http://example.com/api/v1'' \<and> Path request = ''users'' \<longrightarrow>
         builtAddress c keyOrder request = Some ''http://example.com/api/users'') \<and>
      (baseURL c = ''http://example.com/api/v1/'' \<and> Path request = ''../x'' \<longrightarrow>
         builtAddress c keyOrder request = Some ''http://example.com/api/x'') \<and>
      (baseURL c = ''http://example.com/api/v1/'' \<and> Path request = ''./x/../y/.'' \<longrightarrow>
         builtAddress c keyOrder request = Some ''http://example.com/api/v1/y/'') \<and>
      (baseURL c = rfcBase \<longrightarrow>
         (\<forall>(ref, target) \<in> set rfcExamples.
            Path request = ref \<longrightarrow> builtAddress c keyOrder request = Some target)))"
proof (intro conjI impI)
  assume "buildHTTPRequest c keyOrder request = Inr httpRequest"
  then obtain base requestURL body q0 where
    b: "url_Parse (baseURL c) = Inr base"
    and r: "URL_Parse base (Path request) = Inr requestURL"
    and n: "NewRequestWithContext (Method request) (URL_String requestURL) body = Inr q0"
    and q: "httpRequest = q0\<lparr>req_Header := addHeaders (req_Header q0) (Headers request) keyOrder\<rparr>"
    by (rule buildHTTPRequest_Inr)
  from r obtain ref where ref: "url_Parse (Path request) = Inr ref"
    and ru: "requestURL = ResolveReference base ref"
    by (auto simp: URL_Parse_def split: sum.splits)
  from n obtain u where u: "url_Parse (URL_String requestURL) = Inr u"
    and qu: "req_URL q0 = u\<lparr>u_Host := removeEmptyPort (u_Host u)\<rparr>"
    by (auto simp: NewRequestWithContext_def Let_def split: sum.splits if_splits)
  from b ref ru u qu q
  show "\<exists>base ref u.
         url_Parse (baseURL c) = Inr base \<and> url_Parse (Path request) = Inr ref \<and>
         url_Parse (URL_String (ResolveReference base ref)) = Inr u \<and>
         req_URL httpRequest = u\<lparr>u_Host := removeEmptyPort (u_Host u)\<rparr>"
    by auto
next
  assume m: "Method request = '''' \<or> validMethod (Method request)"
    and a: "baseURL c = ''http://example.com'' \<and> Path request = ''/test''"
  then show "builtAddress c keyOrder request = Some ''http://example.com/test''"
    by (simp add: builtAddress_requestAddress more_addresses)
next
  assume m: "Method request = '''' \<or> validMethod (Method request)"
    and a: "baseURL c = ''http://example.com/api/v1'' \<and> Path request = ''/test''"
  then show "builtAddress c keyOrder request = Some ''http://example.com/test''"
    by (simp add: builtAddress_requestAddress more_addresses)
next
  assume m: "Method request = '''' \<or> validMethod (Method request)"
    and a: "baseURL c = ''http://example.com/api/v1'' \<and> Path request = ''users''"
  then show "builtAddress c keyOrder request = Some ''http://example.com/api/users''"
    by (simp add: builtAddress_requestAddress more_addresses)
next
  assume m: "Method request = '''' \<or> validMethod (Method request)"
    and a: "baseURL c = ''http://example.com/api/v1/'' \<and> Path request = ''../x''"
  then show "builtAddress c keyOrder request = Some ''http://example.com/api/x''"
    by (simp add: builtAddress_requestAddress more_addresses)
next
  assume m: "Method request = '''' \<or> validMethod (Method request)"
    and a: "baseURL c = ''http://example.com/api/v1/'' \<and> Path request = ''./x/../y/.''"
  then show "builtAddress c keyOrder request = Some ''http://example.com/api/v1/y/''"
    by (simp add: builtAddress_requestAddress more_addresses)
next
  assume m: "Method request = '''' \<or> validMethod (Method request)"
    and a: "baseURL c = rfcBase"
  show "\<forall>(ref, target) \<in> set rfcExamples.
            Path request = ref \<longrightarrow> builtAddress c keyOrder request = Some target"
  proof (intro ballI, clarify)
    fix target
    assume "(Path request, target) \<in> set rfcExamples"
    with rfc_examples_resolved have "requestAddress rfcBase (Path request) = Some target"
      by (auto simp: list_all_iff)
    with m a show "builtAddress c keyOrder request = Some target"
      by (simp add: builtAddress_requestAddress)
  qed
qed

theorem path_resolved_against_base_witness:
  "baseURL (exampleClient okTransport) = ''http://example.com'' \<and>
   Path getRequest = ''/test'' \<and> validMethod (Method getRequest) \<and>
   builtAddress (exampleClient okTransport) [''Accept''] getRequest = Some ''http://example.com/test'' \<and>
   builtAddress (NewClient okTransport ''http://example.com/api/v1'') [''Accept''] getRequest =
     Some ''http://example.com/test'' \<and>
   builtAddress (NewClient okTransport ''http://example.com/api/v1'') [''Accept'']
     (getRequest\<lparr>Path := ''users''\<rparr>) = Some ''http://example.com/api/users'' \<and>
   builtAddress (NewClient okTransport ''http://example.com/api/v1/'') [''Accept'']
     (getRequest\<lparr>Path := ''../x''\<rparr>) = Some ''http://example.com/api/x'' \<and>
   (''../../g'', ''http://a/g'') \<in> set rfcExamples \<and>
   builtAddress (NewClient okTransport rfcBase) [''Accept'']
     (getRequest\<lparr>Path := ''../../g''\<rparr>) = Some ''http://a/g'' \<and>
   (''g/../h'', ''http://a/b/c/h'') \<in> set rfcExamples \<and>
   builtAddress (NewClient okTransport rfcBase) [''Accept'']
     (getRequest\<lparr>Path := ''g/../h''\<rparr>) = Some ''http://a/b/c/h'' \<and>
   (\<exists>httpRequest base ref u.
      buildHTTPRequest (exampleClient okTransport) [''Accept''] getRequest = Inr httpRequest \<and>
      url_Parse ''http://example.com'' = Inr base \<and> url_Parse ''/test'' = Inr ref \<and>
      url_Parse (URL_String (ResolveReference base ref)) = Inr u \<and>
      req_URL httpRequest = u\<lparr>u_Host := removeEmptyPort (u_Host u)\<rparr>)"
proof -
  have g: "Path getRequest = ''/test''" "validMethod (Method getRequest)"
    by (simp_all add: getRequest_def validMethod_GET)
  have e: "(''../../g'', ''http://a/g'') \<in> set rfcExamples"
      "(''g/../h'', ''http://a/b/c/h'') \<in> set rfcExamples"
    by (simp_all add: rfcExamples_def)
  from example_requests_built(1) obtain q where
    q: "buildHTTPRequest (exampleClient okTransport) [''Accept''] getRequest = Inr q"
    by blast
  note t1 = path_resolved_against_base [of "exampleClient okTransport" "[''Accept'']" getRequest q]
  note t2 = path_resolved_against_base [of "NewClient okTransport ''http://example.com/api/v1''"
      "[''Accept'']" getRequest]
  note t3 = path_resolved_against_base [of "NewClient okTransport ''http://example.com/api/v1''"
      "[''Accept'']" "getRequest\<lparr>Path := ''users''\<rparr>"]
  note t4 = path_resolved_against_base [of "NewClient okTransport ''http://example.com/api/v1/''"
      "[''Accept'']" "getRequest\<lparr>Path := ''../x''\<rparr>"]
  note t5 = path_resolved_against_base [of "NewClient okTransport rfcBase"
      "[''Accept'']" "getRequest\<lparr>Path := ''../../g''\<rparr>"]
  note t6 = path_resolved_against_base [of "NewClient okTransport rfcBase"
      "[''Accept'']" "getRequest\<lparr>Path := ''g/../h''\<rparr>"]
  have a5: "builtAddress (NewClient okTransport rfcBase) [''Accept'']
     (getRequest\<lparr>Path := ''../../g''\<rparr>) = Some ''http://a/g''"
    using t5 g e(1) by (auto simp: NewClient_def)
  have a6: "builtAddress (NewClient okTransport rfcBase) [''Accept'']
     (getRequest\<lparr>Path := ''g/../h''\<rparr>) = Some ''http://a/b/c/h''"
    using t6 g e(2) by (auto simp: NewClient_def)
  from g q e a5 a6 t1 t2 t3 t4
  show ?thesis
    by (simp add: NewClient_def)
qed

end
